theory Spec2Isabelle
  imports Main "HOL-Library.Word" "HOL-Library.Log_Nat"
begin

section \<open>Capture registry and dispatch (src/video_capture.c)\<close>

text \<open>
  The identifiers of the C file are kept. Pointers are modelled by the values they can
  take: a backend state pointer is \<open>NULL\<close>, the address of the global
  \<open>vidcap_init_noerr\<close>, or a real state; a pointer to a \<open>struct vidcap\<close> is an
  address into an explicit heap of allocated wrappers. A failed \<open>assert\<close> is an
  outcome of its own, and so is an array read outside the array.
\<close>

text \<open>\<open>vidcap_id_t\<close> is an unsigned 32-bit number (it is printed with \<open>0x%08x\<close>).\<close>

type_synonym vidcap_id_t = "32 word"

definition VIDCAP_MAGIC :: "32 word" where
  "VIDCAP_MAGIC = 0x76ae98f0"

datatype 'st state_ptr = NULL | INIT_NOERR | State 'st

record 'st vidcap =
  state :: "'st state_ptr"
  index :: nat
  magic :: "32 word"

record vidcap_type =
  type_id :: vidcap_id_t
  name :: string

text \<open>
  One row of \<open>vidcap_device_table\<close>. The four entry points belong to the backends, which
  are outside this file: \<open>func_probe\<close> is the descriptor the probe returns (or none),
  \<open>func_init\<close> maps the configuration string and the flags to the state pointer,
  \<open>func_done\<close> and \<open>func_grab\<close> act on the backend state. The build without
  \<open>BUILD_LIBRARIES\<close> is modelled, so \<open>library_name\<close> and \<open>handle\<close> play no part.
\<close>

record ('st, 'fr) vidcap_device_api =
  api_id :: vidcap_id_t
  func_probe :: "vidcap_type option"
  func_init :: "string \<Rightarrow> 32 word \<Rightarrow> 'st state_ptr"
  func_done :: "'st state_ptr \<Rightarrow> unit"
  func_grab :: "'st state_ptr \<Rightarrow> 'fr"

text \<open>
  The file-scope variables: the table, the array \<open>available_devices\<close> (as long as the
  table, every slot initially null) and \<open>available_device_count\<close>.
\<close>

record ('st, 'fr) registry =
  vidcap_device_table :: "('st, 'fr) vidcap_device_api list"
  available_devices :: "vidcap_type option list"
  available_device_count :: int

datatype 'a outcome = AssertionFailed | OutOfBoundsRead | Returns 'a

definition registry_init :: "('st, 'fr) vidcap_device_api list \<Rightarrow> ('st, 'fr) registry" where
  "registry_init tbl =
     \<lparr>vidcap_device_table = tbl,
      available_devices = replicate (length tbl) None,
      available_device_count = 0\<rparr>"

text \<open>The body of the \<open>for\<close> loop of \<open>vidcap_init_devices\<close>, from row \<open>i\<close> on.\<close>

function probe_from :: "nat \<Rightarrow> ('st, 'fr) registry \<Rightarrow> ('st, 'fr) registry" where
  "probe_from i r =
     (if i < length (vidcap_device_table r) then
        (case func_probe (vidcap_device_table r ! i) of
           None \<Rightarrow> probe_from (Suc i) r
         | Some dt \<Rightarrow>
             probe_from (Suc i)
               (r\<lparr>vidcap_device_table :=
                     (vidcap_device_table r)[i := (vidcap_device_table r ! i)\<lparr>api_id := type_id dt\<rparr>],
                  available_devices :=
                     (available_devices r)[nat (available_device_count r) := Some dt],
                  available_device_count := available_device_count r + 1\<rparr>))
      else r)"
  by pat_completeness auto
termination
  by (relation "measure (\<lambda>(i, r). length (vidcap_device_table r) - i)") auto

definition vidcap_init_devices :: "('st, 'fr) registry \<Rightarrow> (int \<times> ('st, 'fr) registry) outcome" where
  "vidcap_init_devices r =
     (if available_device_count r \<noteq> 0 then AssertionFailed
      else let r' = probe_from 0 r in Returns (available_device_count r', r'))"

definition vidcap_free_devices :: "('st, 'fr) registry \<Rightarrow> ('st, 'fr) registry" where
  "vidcap_free_devices r =
     r\<lparr>available_devices :=
         map (\<lambda>(k, d). if int k < available_device_count r then None else d)
           (enumerate 0 (available_devices r)),
       available_device_count := 0\<rparr>"

definition vidcap_get_device_count :: "('st, 'fr) registry \<Rightarrow> int" where
  "vidcap_get_device_count r = available_device_count r"

text \<open>
  \<open>vidcap_get_device_details\<close>: the first assertion bounds the index from above only; the
  second one reads \<open>available_devices[index]\<close>, which for an index outside the array
  is a read of foreign memory, not a failed assertion.
\<close>

definition vidcap_get_device_details :: "('st, 'fr) registry \<Rightarrow> int \<Rightarrow> vidcap_type outcome" where
  "vidcap_get_device_details r idx =
     (if \<not> idx < available_device_count r then AssertionFailed
      else if idx < 0 \<or> int (length (available_devices r)) \<le> idx then OutOfBoundsRead
      else (case available_devices r ! nat idx of
              None \<Rightarrow> AssertionFailed
            | Some dt \<Rightarrow> Returns dt))"

subsection \<open>Opening a device\<close>

text \<open>
  The heap of \<open>struct vidcap\<close> wrappers: \<open>malloc\<close> returns an address that is not
  allocated (address 0 is the null pointer), \<open>free\<close> removes the block. The caller's
  \<open>struct vidcap **state\<close> is a slot holding an address or nothing.
\<close>

type_synonym 'st heap = "(nat \<times> 'st vidcap) list"

definition malloc_addr :: "'st heap \<Rightarrow> nat" where
  "malloc_addr h = Suc (fold max (map fst h) 0)"

definition free_block :: "nat \<Rightarrow> 'st heap \<Rightarrow> 'st heap" where
  "free_block a h = filter (\<lambda>(b, _). b \<noteq> a) h"

text \<open>
  \<open>vidcap_init\<close>, its loop from row \<open>i\<close> on. The result is the returned integer,
  the caller's slot and the heap.
\<close>

function vidcap_init_from ::
  "nat \<Rightarrow> ('st, 'fr) vidcap_device_api list \<Rightarrow> vidcap_id_t \<Rightarrow> string \<Rightarrow> 32 word \<Rightarrow>
   nat option \<Rightarrow> 'st heap \<Rightarrow> int \<times> nat option \<times> 'st heap" where
  "vidcap_init_from i tbl ident fmt flags slot h =
     (if i < length tbl then
        (if api_id (tbl ! i) = ident then
           (let a = malloc_addr h;
                d = \<lparr>state = func_init (tbl ! i) fmt flags, index = i, magic = VIDCAP_MAGIC\<rparr>;
                h1 = (a, d) # h
            in if state d = NULL then (- 1, slot, free_block a h1)
               else if state d = INIT_NOERR then (1, slot, free_block a h1)
               else (0, Some a, h1))
         else vidcap_init_from (Suc i) tbl ident fmt flags slot h)
      else (- 1, slot, h))"
  by pat_completeness auto
termination
  by (relation "measure (\<lambda>(i, tbl, _). length tbl - i)") auto

definition vidcap_init ::
  "('st, 'fr) vidcap_device_api list \<Rightarrow> vidcap_id_t \<Rightarrow> string \<Rightarrow> 32 word \<Rightarrow>
   nat option \<Rightarrow> 'st heap \<Rightarrow> int \<times> nat option \<times> 'st heap" where
  "vidcap_init tbl ident fmt flags slot h = vidcap_init_from 0 tbl ident fmt flags slot h"

text \<open>
  \<open>vidcap_done\<close> and \<open>vidcap_grab\<close> dereference the handle, check the tag and
  dispatch by the stored index.
\<close>

definition vidcap_done ::
  "('st, 'fr) vidcap_device_api list \<Rightarrow> 'st heap \<Rightarrow> nat \<Rightarrow> 'st heap outcome" where
  "vidcap_done tbl h a =
     (case map_of h a of
        None \<Rightarrow> OutOfBoundsRead
      | Some d \<Rightarrow>
          if magic d \<noteq> VIDCAP_MAGIC then AssertionFailed
          else if length tbl \<le> index d then OutOfBoundsRead
          else (case func_done (tbl ! index d) (state d) of () \<Rightarrow> Returns (free_block a h)))"

definition vidcap_grab ::
  "('st, 'fr) vidcap_device_api list \<Rightarrow> 'st heap \<Rightarrow> nat \<Rightarrow> 'fr outcome" where
  "vidcap_grab tbl h a =
     (case map_of h a of
        None \<Rightarrow> OutOfBoundsRead
      | Some d \<Rightarrow>
          if magic d \<noteq> VIDCAP_MAGIC then AssertionFailed
          else if length tbl \<le> index d then OutOfBoundsRead
          else Returns (func_grab (tbl ! index d) (state d)))"


text \<open>A table of three backends whose \<open>init\<close> gives each of the three results.\<close>

definition demo_table :: "(nat, nat) vidcap_device_api list" where
  "demo_table =
     [\<lparr>api_id = 1, func_probe = None, func_init = (\<lambda>_ _. NULL),
       func_done = (\<lambda>_. ()), func_grab = (\<lambda>_. 0)\<rparr>,
      \<lparr>api_id = 2, func_probe = None, func_init = (\<lambda>_ _. INIT_NOERR),
       func_done = (\<lambda>_. ()), func_grab = (\<lambda>_. 0)\<rparr>,
      \<lparr>api_id = 3, func_probe = None, func_init = (\<lambda>_ _. State 7),
       func_done = (\<lambda>_. ()), func_grab = (\<lambda>_. 0)\<rparr>]"

text \<open>A table whose first probe fails and whose second probe finds a device.\<close>

definition probe_table :: "(nat, nat) vidcap_device_api list" where
  "probe_table =
     [\<lparr>api_id = 0, func_probe = None, func_init = (\<lambda>_ _. NULL),
       func_done = (\<lambda>_. ()), func_grab = (\<lambda>_. 0)\<rparr>,
      \<lparr>api_id = 0, func_probe = Some \<lparr>type_id = 0x10, name = ''testcard''\<rparr>,
       func_init = (\<lambda>_ _. State 7), func_done = (\<lambda>_. ()), func_grab = (\<lambda>_. 0)\<rparr>]"

section \<open>C arithmetic used by the file backend\<close>

subsection \<open>\<open>double\<close>\<close>

text \<open>
  A finite \<open>double\<close> is the rational it denotes. \<open>to_double\<close> rounds a rational to the
  nearest number with a 53-bit significand, ties to even, which is what every IEEE
  binary64 operation does to its exact result. The exponent range is not bounded
  (no overflow to infinity, no subnormals): the quantities of this file (sample rates,
  frame rates, time stamps) are far inside it. A division by zero has no finite result
  and is \<open>None\<close>, and so is a conversion to an integer type that cannot hold the value
  (undefined in C).
\<close>

type_synonym double = rat

definition pow2 :: "int \<Rightarrow> rat" where
  "pow2 e = (if 0 \<le> e then 2 ^ nat e else 1 / 2 ^ nat (- e))"

definition round_half_even :: "rat \<Rightarrow> int" where
  "round_half_even x =
     (let f = \<lfloor>x\<rfloor>; d = x - of_int f
      in if d < 1 / 2 then f else if 1 / 2 < d then f + 1 else if even f then f else f + 1)"

text \<open>The exponent \<open>e\<close> with \<open>2^52 \<le> |x| / 2^e < 2^53\<close>, for \<open>x \<noteq> 0\<close>.\<close>

definition binary64_exponent :: "rat \<Rightarrow> int" where
  "binary64_exponent x =
     (case quotient_of \<bar>x\<bar> of (p, q) \<Rightarrow>
        (let e = bitlen p - bitlen q - 53
         in if \<bar>x\<bar> / pow2 e < 2 ^ 53 then e else e + 1))"

definition to_double :: "rat \<Rightarrow> double" where
  "to_double x =
     (if x = 0 then 0
      else let e = binary64_exponent x in of_int (round_half_even (x / pow2 e)) * pow2 e)"

definition double_of_int :: "int \<Rightarrow> double" where
  "double_of_int i = to_double (of_int i)"

definition dmul :: "double \<Rightarrow> double \<Rightarrow> double" where
  "dmul x y = to_double (x * y)"

definition dadd :: "double \<Rightarrow> double \<Rightarrow> double" where
  "dadd x y = to_double (x + y)"

definition ddiv :: "double \<Rightarrow> double \<Rightarrow> double option" where
  "ddiv x y = (if y = 0 then None else Some (to_double (x / y)))"

definition trunc_zero :: "rat \<Rightarrow> int" where
  "trunc_zero x = (if 0 \<le> x then \<lfloor>x\<rfloor> else \<lceil>x\<rceil>)"

definition INT64_MIN :: int where "INT64_MIN = - (2 ^ 63)"
definition INT64_MAX :: int where "INT64_MAX = 2 ^ 63 - 1"
definition INT_MIN :: int where "INT_MIN = - (2 ^ 31)"
definition INT_MAX :: int where "INT_MAX = 2 ^ 31 - 1"

definition in_int64 :: "int \<Rightarrow> bool" where
  "in_int64 i = (INT64_MIN \<le> i \<and> i \<le> INT64_MAX)"

definition in_int :: "int \<Rightarrow> bool" where
  "in_int i = (INT_MIN \<le> i \<and> i \<le> INT_MAX)"

definition double_to_int64 :: "double \<Rightarrow> int option" where
  "double_to_int64 x = (if in_int64 (trunc_zero x) then Some (trunc_zero x) else None)"

definition double_to_int :: "double \<Rightarrow> int option" where
  "double_to_int x = (if in_int (trunc_zero x) then Some (trunc_zero x) else None)"

text \<open>
  \<open>int64_t\<close> products and quotients: no value on overflow or on division by zero; the
  quotient is rounded towards zero.
\<close>

definition int64_mul :: "int \<Rightarrow> int \<Rightarrow> int option" where
  "int64_mul a b = (if in_int64 (a * b) then Some (a * b) else None)"

definition int64_div :: "int \<Rightarrow> int \<Rightarrow> int option" where
  "int64_div a b =
     (if b = 0 \<or> \<not> in_int64 (sgn a * sgn b * (\<bar>a\<bar> div \<bar>b\<bar>)) then None
      else Some (sgn a * sgn b * (\<bar>a\<bar> div \<bar>b\<bar>)))"

subsection \<open>\<open>strtol\<close>, \<open>atoi\<close>, \<open>strstr\<close>\<close>

text \<open>
  The C library's \<open>strtol\<close> in the C locale with a 64-bit \<open>long\<close>: white space, an
  optional sign, for base 0 (and 16) an optional \<open>0x\<close>, for base 0 a leading \<open>0\<close>
  meaning octal, then the longest run of digits of the base. The result is the value,
  clamped to the range of \<open>long\<close>, and the rest of the string (\<open>endptr\<close>); with no
  digit the value is 0 and the rest is the whole string. \<open>atoi\<close> is
  \<open>(int) strtol(s, NULL, 10)\<close>, the conversion to \<open>int\<close> keeping the low 32 bits.
\<close>

definition isspace :: "char \<Rightarrow> bool" where
  "isspace c = (c = CHR '' '' \<or> (9 \<le> (of_char c :: nat) \<and> (of_char c :: nat) \<le> 13))"

definition digit_value :: "char \<Rightarrow> nat option" where
  "digit_value c =
     (let k = (of_char c :: nat)
      in if 48 \<le> k \<and> k \<le> 57 then Some (k - 48)
         else if 97 \<le> k \<and> k \<le> 122 then Some (k - 87)
         else if 65 \<le> k \<and> k \<le> 90 then Some (k - 55)
         else None)"

fun strtol_digits :: "nat \<Rightarrow> nat \<Rightarrow> string \<Rightarrow> nat \<times> string" where
  "strtol_digits b acc [] = (acc, [])"
| "strtol_digits b acc (c # cs) =
     (case digit_value c of
        None \<Rightarrow> (acc, c # cs)
      | Some d \<Rightarrow> if d < b then strtol_digits b (acc * b + d) cs else (acc, c # cs))"

definition has_hex_prefix :: "string \<Rightarrow> bool" where
  "has_hex_prefix s =
     (case s of
        z # x # h # _ \<Rightarrow>
          z = CHR ''0'' \<and> (x = CHR ''x'' \<or> x = CHR ''X'') \<and>
          (case digit_value h of None \<Rightarrow> False | Some d \<Rightarrow> d < 16)
      | _ \<Rightarrow> False)"

definition strtol :: "string \<Rightarrow> nat \<Rightarrow> int \<times> string" where
  "strtol nptr base =
     (let s1 = dropWhile isspace nptr;
          neg = (case s1 of [] \<Rightarrow> False | c # _ \<Rightarrow> c = CHR ''-'');
          s2 = (case s1 of [] \<Rightarrow> [] | c # cs \<Rightarrow> if c = CHR ''-'' \<or> c = CHR ''+'' then cs else s1);
          hex = ((base = 0 \<or> base = 16) \<and> has_hex_prefix s2);
          b = (if hex then 16
               else if base = 0 then (case s2 of [] \<Rightarrow> 10 | c # _ \<Rightarrow> if c = CHR ''0'' then 8 else 10)
               else base);
          s3 = (if hex then drop 2 s2 else s2);
          r = strtol_digits b 0 s3;
          v = (if neg then - int (fst r) else int (fst r))
      in if length (snd r) = length s3 then (0, nptr)
         else (max INT64_MIN (min INT64_MAX v), snd r))"

definition atoi :: "string \<Rightarrow> int" where
  "atoi s = sint (word_of_int (fst (strtol s 10)) :: 32 word)"

text \<open>\<open>strstr\<close>: the suffix of the haystack at the first occurrence of the needle.\<close>

fun strstr :: "string \<Rightarrow> string \<Rightarrow> string option" where
  "strstr [] needle = (if needle = [] then Some [] else None)"
| "strstr (c # cs) needle =
     (if take (length needle) (c # cs) = needle then Some (c # cs) else strstr cs needle)"

section \<open>The file backend (src/video_capture/file.c)\<close>

subsection \<open>State\<close>

text \<open>
  \<open>struct vidcap_state_lavf_decoder\<close> with the parts of its collaborators that the
  functions below read or write: of the demuxer context the streams (start time, time
  base) and the container start time; of \<open>struct module\<close> the magic number and the
  queue of pending messages. What the backend does to its collaborators is logged in
  the state: the responses given to messages, the seek calls issued to the demuxer, the
  condition variables signalled, whether \<open>exit_uv\<close> was called, and whether the
  message handler has evaluated an expression that has no defined value in C
  (\<open>undefined_behaviour\<close>; the source promises nothing from there on). Bytes are
  \<open>8 word\<close>; a buffer is the list of its valid bytes.
\<close>

record video_desc =
  width :: int
  height :: int
  fps :: double
  color_spec :: nat
  tile_count :: int

record video_frame =
  vf_desc :: video_desc
  vf_data :: "8 word list"

record audio_frame =
  bps :: int
  sample_rate :: int
  ch_count :: int
  data :: "8 word list"
  data_len :: int
  max_size :: int

record av_stream =
  start_time :: int
  time_base_num :: int
  time_base_den :: int
  duration :: int

datatype response = RESPONSE_OK | RESPONSE_BAD_REQUEST

datatype cond = new_frame_ready | frame_consumed | paused_cv

text \<open>
  A call of \<open>avformat_seek_file\<close>: the stream index and the target time stamp
  (\<open>None\<close> when the C expression for it has no defined value).
\<close>

datatype seek_call = SeekFile int "int option"

text \<open>Where the worker thread stands in \<open>vidcap_file_worker\<close>.\<close>

datatype worker_pc = LoopHead | PausedWait | ReadFrame | Enqueue video_frame | Exited

record vidcap_state_lavf_decoder =
  priv_magic :: "32 word"
  msg_queue :: "string list"
  src_filename :: string
  streams :: "av_stream list"
  fmt_start_time :: int
  thread_count :: int
  thread_type :: int
  failed :: bool
  loop :: bool
  new_msg :: bool
  no_decode :: bool
  convert_to :: nat
  paused :: bool
  use_audio :: bool
  video_stream_idx :: int
  audio_stream_idx :: int
  last_vid_pts :: int
  video_desc :: video_desc
  video_frame_queue :: "video_frame list"
  max_queue_len :: int
  audio_frame :: audio_frame
  should_exit :: bool
  responses :: "response list"
  seek_calls :: "seek_call list"
  signalled :: "cond list"
  exit_uv_called :: bool
  undefined_behaviour :: bool
  worker :: worker_pc

definition AUDIO_RATIO :: double where
  "AUDIO_RATIO = to_double (105 / 100)"

definition FILE_DEFAULT_QUEUE_LEN :: int where
  "FILE_DEFAULT_QUEUE_LEN = 1"

text \<open>
  Modelled from the spec: the macro \<open>to_fourcc\<close> is not among the sources. The module
  magic is a fixed tag that \<open>vidcap_file_init\<close> stores and \<open>vidcap_file_grab\<close>
  asserts; it is taken to be the four characters \<open>u g l f\<close> with the first in the low
  byte. Only its being one fixed value matters below.
\<close>

definition MAGIC :: "32 word" where
  "MAGIC = 0x666c6775"

definition AV_NOPTS_VALUE :: int where
  "AV_NOPTS_VALUE = INT64_MIN"

text \<open>
  Modelled from the spec: \<open>simple_linked_list\<close> (utils/list.c), which holds the queue
  of video frames, is not among the sources. By the spec the queue is a FIFO, so
  \<open>simple_linked_list_append\<close> adds at the tail and \<open>simple_linked_list_pop\<close>
  removes the head (and gives null on an empty list).
\<close>

definition simple_linked_list_size :: "'a list \<Rightarrow> int" where
  "simple_linked_list_size q = int (length q)"

definition simple_linked_list_append :: "'a list \<Rightarrow> 'a \<Rightarrow> 'a list" where
  "simple_linked_list_append q x = q @ [x]"

definition simple_linked_list_pop :: "'a list \<Rightarrow> 'a option \<times> 'a list" where
  "simple_linked_list_pop q = (case q of [] \<Rightarrow> (None, []) | x # xs \<Rightarrow> (Some x, xs))"

subsection \<open>Control messages\<close>

definition video_st :: "vidcap_state_lavf_decoder \<Rightarrow> av_stream option" where
  "video_st s =
     (if 0 \<le> video_stream_idx s \<and> video_stream_idx s < int (length (streams s))
      then Some (streams s ! nat (video_stream_idx s)) else None)"

text \<open>
  The seek branch of \<open>vidcap_file_process_messages\<close>: \<open>count_str\<close> is the text from
  its sixth character on, \<open>sec\<close> is the number \<open>strtol\<close> reads there as a \<open>double\<close>,
  divided by the frame rate unless the number is followed by \<open>s\<close>. The time stamp is
  the C expression \<open>st->start_time + s->last_vid_pts + sec * tb.den / tb.num\<close>: an
  \<open>int64_t\<close> sum, converted to \<open>double\<close>, plus a \<open>double\<close> product and quotient,
  converted to the \<open>int64_t\<close> parameter by truncation.
\<close>

definition seek_sec :: "vidcap_state_lavf_decoder \<Rightarrow> string \<Rightarrow> double option" where
  "seek_sec s text =
     (case strtol (drop (length ''seek '') text) 0 of
        (n, endptr) \<Rightarrow>
          (if (case endptr of [] \<Rightarrow> True | c # _ \<Rightarrow> c \<noteq> CHR ''s'')
           then ddiv (double_of_int n) (fps (video_desc s))
           else Some (double_of_int n)))"

definition seek_target :: "vidcap_state_lavf_decoder \<Rightarrow> string \<Rightarrow> int option" where
  "seek_target s text =
     (case video_st s of
        None \<Rightarrow> None
      | Some st \<Rightarrow>
          (case seek_sec s text of
             None \<Rightarrow> None
           | Some sec \<Rightarrow>
               if \<not> in_int64 (start_time st + last_vid_pts s) then None
               else
                 (case ddiv (dmul sec (double_of_int (time_base_den st)))
                            (double_of_int (time_base_num st)) of
                    None \<Rightarrow> None
                  | Some off \<Rightarrow>
                      double_to_int64
                        (dadd (double_of_int (start_time st + last_vid_pts s)) off))))"

text \<open>
  After the seek call the handler computes, for its log line, the position and the
  duration in milliseconds: the \<open>int64_t\<close> expressions
  \<open>s->last_vid_pts * tb.num * 1000 / tb.den\<close> and
  \<open>st->duration * tb.num * 1000 / tb.den\<close>. (\<open>format_time_ms\<close>, which receives
  them, is declared and defined outside this file; the conversion of the arguments to
  its parameter type and what it prints are not modelled.)
\<close>

definition time_ms :: "int \<Rightarrow> av_stream \<Rightarrow> int option" where
  "time_ms ts st =
     (case int64_mul ts (time_base_num st) of
        None \<Rightarrow> None
      | Some a \<Rightarrow>
          (case int64_mul a 1000 of
             None \<Rightarrow> None
           | Some b \<Rightarrow> int64_div b (time_base_den st)))"

definition seek_log_defined :: "vidcap_state_lavf_decoder \<Rightarrow> bool" where
  "seek_log_defined s =
     (case video_st s of
        None \<Rightarrow> False
      | Some st \<Rightarrow> time_ms (last_vid_pts s) st \<noteq> None \<and> time_ms (duration st) st \<noteq> None)"

text \<open>
  One message. In the seek branch the demuxer is called first; when the time stamp or
  one of the two log expressions has no defined value the handler has left defined
  behaviour and no reply is recorded, otherwise the reply is OK (also when the demuxer
  reports an error, which is only logged).
\<close>

definition process_message :: "string \<Rightarrow> vidcap_state_lavf_decoder \<Rightarrow> vidcap_state_lavf_decoder" where
  "process_message text s =
     (if strstr text ''seek '' \<noteq> None then
        (if seek_target s text = None \<or> \<not> seek_log_defined s then
           s\<lparr>seek_calls := seek_calls s @ [SeekFile (video_stream_idx s) (seek_target s text)],
             undefined_behaviour := True\<rparr>
         else
           s\<lparr>seek_calls := seek_calls s @ [SeekFile (video_stream_idx s) (seek_target s text)],
             responses := responses s @ [RESPONSE_OK]\<rparr>)
      else if text = ''pause'' then
        s\<lparr>paused := \<not> paused s, responses := responses s @ [RESPONSE_OK]\<rparr>
      else if text = ''quit'' then
        s\<lparr>exit_uv_called := True, responses := responses s @ [RESPONSE_OK]\<rparr>
      else
        s\<lparr>responses := responses s @ [RESPONSE_BAD_REQUEST]\<rparr>)"

text \<open>
  The \<open>while\<close> loop of \<open>vidcap_file_process_messages\<close>: \<open>check_message\<close> takes the
  pending messages off the module's queue one by one, oldest first.
\<close>

fun process_all :: "string list \<Rightarrow> vidcap_state_lavf_decoder \<Rightarrow> vidcap_state_lavf_decoder" where
  "process_all [] s = s"
| "process_all (text # rest) s = process_all rest (process_message text (s\<lparr>msg_queue := rest\<rparr>))"

definition vidcap_file_process_messages :: "vidcap_state_lavf_decoder \<Rightarrow> vidcap_state_lavf_decoder" where
  "vidcap_file_process_messages s = process_all (msg_queue s) s"

text \<open>
  \<open>vidcap_file_new_message\<close>, called by the messaging layer after it has queued the
  text, and \<open>vidcap_file_should_exit\<close>.
\<close>

definition vidcap_file_new_message :: "string \<Rightarrow> vidcap_state_lavf_decoder \<Rightarrow> vidcap_state_lavf_decoder" where
  "vidcap_file_new_message text s =
     s\<lparr>msg_queue := msg_queue s @ [text], new_msg := True,
       signalled := signalled s @ [paused_cv]\<rparr>"

definition vidcap_file_should_exit :: "vidcap_state_lavf_decoder \<Rightarrow> vidcap_state_lavf_decoder" where
  "vidcap_file_should_exit s =
     s\<lparr>should_exit := True,
       signalled := signalled s @ [new_frame_ready, frame_consumed, paused_cv]\<rparr>"

text \<open>
  The state of a session on a 25 fps file with one video stream in a 1/90000 time base,
  opened without audio, before the worker has read anything.
\<close>

definition demo_state :: vidcap_state_lavf_decoder where
  "demo_state =
     \<lparr>priv_magic = MAGIC, msg_queue = [], src_filename = ''clip.mkv'',
      streams = [\<lparr>start_time = 3000, time_base_num = 1, time_base_den = 90000, duration = 900000\<rparr>],
      fmt_start_time = 0, thread_count = 0, thread_type = 3,
      failed = False, loop = False, new_msg = False, no_decode = False, convert_to = 0,
      paused = False, use_audio = False, video_stream_idx = 0, audio_stream_idx = - 1,
      last_vid_pts = 3000,
      video_desc = \<lparr>width = 1920, height = 1080, fps = 25, color_spec = 1, tile_count = 1\<rparr>,
      video_frame_queue = [], max_queue_len = 1,
      audio_frame = \<lparr>bps = 0, sample_rate = 0, ch_count = 0, data = [], data_len = 0, max_size = 0\<rparr>,
      should_exit = False, responses = [], seek_calls = [], signalled = [],
      exit_uv_called = False, undefined_behaviour = False, worker = LoopHead\<rparr>"

subsection \<open>The audio slicer\<close>

text \<open>
  The first argument of \<open>MIN\<close> in \<open>get_audio\<close>:
  \<open>(int) (AUDIO_RATIO * ret->sample_rate / video_fps) * ret->bps * ret->ch_count\<close>. The
  quotient is a \<open>double\<close>, the cast truncates it, the two products are \<open>int\<close>
  products (no value when they overflow).
\<close>

definition audio_target :: "audio_frame \<Rightarrow> double \<Rightarrow> int option" where
  "audio_target af video_fps =
     (case ddiv (dmul AUDIO_RATIO (double_of_int (sample_rate af))) video_fps of
        None \<Rightarrow> None
      | Some q \<Rightarrow>
          (case double_to_int q of
             None \<Rightarrow> None
           | Some k \<Rightarrow>
               if in_int (k * bps af) \<and> in_int (k * bps af * ch_count af)
               then Some (k * bps af * ch_count af) else None))"

text \<open>
  \<open>get_audio\<close> returns a freshly allocated frame, never a null pointer: a copy of
  \<open>s->audio_frame\<close> whose length is the target clamped to the buffered bytes and whose
  data is that prefix of the buffer; the rest of the buffer is moved to its start.
\<close>

definition get_audio ::
  "vidcap_state_lavf_decoder \<Rightarrow> double \<Rightarrow> (audio_frame \<times> vidcap_state_lavf_decoder) option" where
  "get_audio s video_fps =
     (case audio_target (audio_frame s) video_fps of
        None \<Rightarrow> None
      | Some req \<Rightarrow>
          (let n = min req (data_len (audio_frame s))
           in if n < 0 then None
              else Some
                ((audio_frame s)\<lparr>max_size := n, data_len := n,
                                  data := take (nat n) (data (audio_frame s))\<rparr>,
                 s\<lparr>audio_frame :=
                     (audio_frame s)\<lparr>data_len := data_len (audio_frame s) - n,
                                       data := drop (nat n) (data (audio_frame s))\<rparr>\<rparr>)))"

subsection \<open>\<open>vidcap_file_grab\<close>\<close>

text \<open>
  The consumer's call. While the queue is empty and the worker is neither failed nor
  told to exit the call waits on \<open>new_frame_ready\<close> (\<open>GrabBlocks\<close>: it does not
  return in this state). The audio out-parameter is set to null first and to the result
  of \<open>get_audio\<close> after a frame was popped. The pacing loop at the end, which spins
  until a frame period has passed, only delays the return and is left out.
\<close>

datatype grab_result =
    GrabAssertionFailed
  | GrabBlocks
  | GrabUndefined
  | GrabReturns "video_frame option" "audio_frame option" vidcap_state_lavf_decoder

definition vidcap_file_grab :: "vidcap_state_lavf_decoder \<Rightarrow> grab_result" where
  "vidcap_file_grab s =
     (if priv_magic s \<noteq> MAGIC then GrabAssertionFailed
      else if simple_linked_list_size (video_frame_queue s) = 0 \<and> \<not> failed s \<and> \<not> should_exit s
      then GrabBlocks
      else if failed s \<or> should_exit s then GrabReturns None None s
      else
        (case simple_linked_list_pop (video_frame_queue s) of
           (None, _) \<Rightarrow> GrabUndefined
         | (Some out, rest) \<Rightarrow>
             (case get_audio (s\<lparr>video_frame_queue := rest,
                                signalled := signalled s @ [frame_consumed]\<rparr>)
                             (fps (vf_desc out)) of
                None \<Rightarrow> GrabUndefined
              | Some (a, s') \<Rightarrow> GrabReturns (Some out) (Some a) s')))"

subsection \<open>\<open>vidcap_file_worker\<close>\<close>

text \<open>
  What the libraries give the worker in one pass of its loop: the result of
  \<open>av_read_frame\<close>, the return code of the \<open>avformat_seek_file\<close> issued at the end of
  a looped file, the converted picture the video decoder delivers for the packet (none
  when decoding fails or yields no frame) and the frames the audio decoder delivers for
  the packet. An audio frame is given by the bytes it contributes: planar samples (after
  \<open>mux_channel\<close> has interleaved them), packed samples, or nothing (samples of type
  \<open>double\<close>, or a buffer size that libavutil cannot compute).
\<close>

record av_packet =
  stream_index :: int
  pts :: int
  dts :: int
  pkt_data :: "8 word list"

datatype av_read = AVERROR_EOF | AVERROR_OTHER | Packet av_packet

datatype decoded_audio_frame =
    PlanarSamples "8 word list"
  | PackedSamples "8 word list"
  | Rejected

record worker_env =
  read_frame :: av_read
  seek_rc :: int
  decoded_video :: "8 word list option"
  decoded_audio :: "decoded_audio_frame list"

text \<open>
  Modelled from the spec: \<open>append_audio_frame\<close> (audio/utils.c) is not among the
  sources. By the spec a decoded unit that would overflow the audio buffer is dropped
  with a warning; any other unit is appended.
\<close>

definition append_audio_frame :: "audio_frame \<Rightarrow> 8 word list \<Rightarrow> audio_frame" where
  "append_audio_frame f bytes =
     (if data_len f + int (length bytes) > max_size f then f
      else f\<lparr>data := data f @ bytes, data_len := data_len f + int (length bytes)\<rparr>)"

text \<open>
  \<open>vidcap_file_write_audio\<close>: planar samples are appended to \<open>s->audio_frame\<close>
  unless they do not fit, in which case the frame is dropped with a warning; packed
  samples are handed to \<open>append_audio_frame\<close>.
\<close>

definition vidcap_file_write_audio ::
  "vidcap_state_lavf_decoder \<Rightarrow> decoded_audio_frame \<Rightarrow> vidcap_state_lavf_decoder" where
  "vidcap_file_write_audio s frame =
     (case frame of
        Rejected \<Rightarrow> s
      | PlanarSamples bytes \<Rightarrow>
          if data_len (audio_frame s) + int (length bytes) > max_size (audio_frame s) then s
          else s\<lparr>audio_frame :=
                   (audio_frame s)\<lparr>data := data (audio_frame s) @ bytes,
                                     data_len := data_len (audio_frame s) + int (length bytes)\<rparr>\<rparr>
      | PackedSamples bytes \<Rightarrow>
          s\<lparr>audio_frame := append_audio_frame (audio_frame s) bytes\<rparr>)"

definition FAIL_WORKER :: "vidcap_state_lavf_decoder \<Rightarrow> vidcap_state_lavf_decoder" where
  "FAIL_WORKER s =
     s\<lparr>failed := True, signalled := signalled s @ [new_frame_ready], worker := Exited\<rparr>"

text \<open>
  One step of the worker thread from its control point; \<open>None\<close> when the thread is
  parked in \<open>pthread_cond_wait\<close> (on \<open>paused_cv\<close> or on \<open>frame_consumed\<close>) or has
  returned. The sections under \<open>s->lock\<close> are single steps.
\<close>

definition vidcap_file_worker_step ::
  "worker_env \<Rightarrow> vidcap_state_lavf_decoder \<Rightarrow> vidcap_state_lavf_decoder option" where
  "vidcap_file_worker_step env s =
     (case worker s of
        Exited \<Rightarrow> None
      | LoopHead \<Rightarrow>
          if should_exit s then Some (s\<lparr>worker := Exited\<rparr>)
          else
            (let s1 = (if new_msg s then (vidcap_file_process_messages s)\<lparr>new_msg := False\<rparr> else s)
             in if paused s1 then Some (s1\<lparr>worker := PausedWait\<rparr>)
                else Some (s1\<lparr>worker := ReadFrame\<rparr>))
      | PausedWait \<Rightarrow>
          if \<not> should_exit s \<and> \<not> new_msg s then None
          else if should_exit s then Some (s\<lparr>worker := Exited\<rparr>)
          else Some (s\<lparr>worker := LoopHead\<rparr>)
      | ReadFrame \<Rightarrow>
          (case read_frame env of
             AVERROR_EOF \<Rightarrow>
               if loop s then
                 (let s1 = s\<lparr>seek_calls := seek_calls s @ [SeekFile (- 1) (Some (fmt_start_time s))]\<rparr>
                  in if seek_rc env < 0 then Some (FAIL_WORKER s1)
                     else Some (s1\<lparr>worker := LoopHead\<rparr>))
               else Some (s\<lparr>paused := True, worker := LoopHead\<rparr>)
           | AVERROR_OTHER \<Rightarrow> Some (FAIL_WORKER s)
           | Packet pkt \<Rightarrow>
               if stream_index pkt = audio_stream_idx s then
                 Some ((fold (\<lambda>frame s'. vidcap_file_write_audio s' frame) (decoded_audio env) s)
                         \<lparr>worker := LoopHead\<rparr>)
               else if stream_index pkt = video_stream_idx s then
                 (let s1 = s\<lparr>last_vid_pts := (if pts pkt = AV_NOPTS_VALUE then dts pkt else pts pkt)\<rparr>
                  in if no_decode s then
                       Some (s1\<lparr>worker := Enqueue \<lparr>vf_desc = video_desc s, vf_data = pkt_data pkt\<rparr>\<rparr>)
                     else
                       (case decoded_video env of
                          None \<Rightarrow> Some (s1\<lparr>worker := LoopHead\<rparr>)
                        | Some pic \<Rightarrow>
                            Some (s1\<lparr>worker := Enqueue \<lparr>vf_desc = video_desc s, vf_data = pic\<rparr>\<rparr>)))
               else Some (s\<lparr>worker := LoopHead\<rparr>))
      | Enqueue out \<Rightarrow>
          if \<not> should_exit s \<and> simple_linked_list_size (video_frame_queue s) > max_queue_len s
          then None
          else if should_exit s then Some (s\<lparr>worker := Exited\<rparr>)
          else Some (s\<lparr>video_frame_queue := simple_linked_list_append (video_frame_queue s) out,
                       signalled := signalled s @ [new_frame_ready],
                       worker := LoopHead\<rparr>))"

text \<open>
  The states a session can be in: from a state \<open>s0\<close>, any interleaving of worker steps,
  returning \<open>grab\<close> calls, message deliveries and the exit callback.
\<close>

inductive_set reachable :: "vidcap_state_lavf_decoder \<Rightarrow> vidcap_state_lavf_decoder set"
  for s0 :: vidcap_state_lavf_decoder where
  start: "s0 \<in> reachable s0"
| worker_step: "s \<in> reachable s0 \<Longrightarrow> vidcap_file_worker_step env s = Some s' \<Longrightarrow> s' \<in> reachable s0"
| grab: "s \<in> reachable s0 \<Longrightarrow> vidcap_file_grab s = GrabReturns v a s' \<Longrightarrow> s' \<in> reachable s0"
| message: "s \<in> reachable s0 \<Longrightarrow> vidcap_file_new_message text s \<in> reachable s0"
| exit: "s \<in> reachable s0 \<Longrightarrow> vidcap_file_should_exit s \<in> reachable s0"

text \<open>A run of the worker alone: one step per environment record, stopping where it parks.\<close>

fun worker_run :: "worker_env list \<Rightarrow> vidcap_state_lavf_decoder \<Rightarrow> vidcap_state_lavf_decoder" where
  "worker_run [] s = s"
| "worker_run (env # envs) s =
     (case vidcap_file_worker_step env s of None \<Rightarrow> s | Some s' \<Rightarrow> worker_run envs s')"

text \<open>
  Audio buffers of 16-bit stereo sound holding \<open>n\<close> bytes, and a session with such a
  buffer.
\<close>

definition audio_buf :: "int \<Rightarrow> int \<Rightarrow> audio_frame" where
  "audio_buf rate n =
     \<lparr>bps = 2, sample_rate = rate, ch_count = 2, data = replicate (nat n) 0, data_len = n,
      max_size = 2 * 2 * rate\<rparr>"

definition audio_demo_state :: "int \<Rightarrow> int \<Rightarrow> vidcap_state_lavf_decoder" where
  "audio_demo_state rate n =
     demo_state\<lparr>streams := streams demo_state @
                             [\<lparr>start_time = 0, time_base_num = 1, time_base_den = rate, duration = 10 * rate\<rparr>],
                use_audio := True, audio_stream_idx := 1, audio_frame := audio_buf rate n\<rparr>"

subsection \<open>Opening a file: \<open>vidcap_file_parse_fmt\<close> and \<open>vidcap_file_init\<close>\<close>

text \<open>
  What lies outside file.c and decides the course of \<open>vidcap_file_init\<close>: the codec
  table of the application (\<open>get_codec_from_name\<close>, the codec \<open>UYVY\<close>; 0 is
  \<open>VIDEO_CODEC_NONE\<close>), the flag mask \<open>VIDCAP_FLAG_AUDIO_ANY\<close> of video_capture.h,
  and the answers of libavformat, libavcodec and libswscale for the file being opened.
  \<open>stream_fps\<close> is the quotient \<open>(double) r_frame_rate.num / r_frame_rate.den\<close>.
\<close>

record file_env =
  get_codec_from_name :: "string \<Rightarrow> nat"
  UYVY :: nat
  VIDCAP_FLAG_AUDIO_ANY :: "32 word"
  open_input_rc :: int
  find_stream_info_rc :: int
  env_streams :: "av_stream list"
  env_start_time :: int
  best_audio_stream :: int
  audio_dec :: "(int \<times> int \<times> int) option"
  best_video_stream :: int
  stream_width :: int
  stream_height :: int
  stream_fps :: double
  nodecode_codec :: nat
  video_dec_ok :: bool
  best_ug_codec :: nat
  conversion_ok :: "nat \<Rightarrow> bool"

definition clampi :: "int \<Rightarrow> int \<Rightarrow> int \<Rightarrow> int" where
  "clampi val lo hi = (if val < lo then lo else if val > hi then hi else val)"

definition FF_THREAD_FRAME :: int where "FF_THREAD_FRAME = 1"
definition FF_THREAD_SLICE :: int where "FF_THREAD_SLICE = 2"

text \<open>The tokens \<open>strtok_r\<close> finds with the delimiter \<open>:\<close>, in order.\<close>

function strtok_all :: "string \<Rightarrow> string list" where
  "strtok_all s =
     (case dropWhile (\<lambda>c. c = CHR '':'') s of
        [] \<Rightarrow> []
      | c # cs \<Rightarrow>
          takeWhile (\<lambda>c. c \<noteq> CHR '':'') (c # cs) #
          strtok_all (dropWhile (\<lambda>c. c \<noteq> CHR '':'') cs))"
  by pat_completeness auto
termination
proof (relation "measure length")
  show "wf (measure length)" by simp
next
  fix s :: string and c cs
  assume a: "dropWhile (\<lambda>c. c = CHR '':'') s = c # cs"
  have "length (dropWhile (\<lambda>c. c \<noteq> CHR '':'') cs) \<le> length cs"
    by (rule length_dropWhile_le)
  also have "length cs < length (dropWhile (\<lambda>c. c = CHR '':'') s)"
    using a by simp
  also have "\<dots> \<le> length s" by (rule length_dropWhile_le)
  finally show "(dropWhile (\<lambda>c. c \<noteq> CHR '':'') cs, s) \<in> measure length" by simp
qed

text \<open>
  One option of the configuration string; \<open>None\<close> is \<open>return false\<close>. The flag
  carried along is \<open>opportunistic_audio\<close>.
\<close>

definition parse_item ::
  "file_env \<Rightarrow> string \<Rightarrow> vidcap_state_lavf_decoder \<times> bool \<Rightarrow>
   (vidcap_state_lavf_decoder \<times> bool) option" where
  "parse_item env item sb =
     (case sb of (s, opp) \<Rightarrow>
        if item = ''loop'' then Some (s\<lparr>loop := True\<rparr>, opp)
        else if item = ''nodecode'' then Some (s\<lparr>no_decode := True\<rparr>, opp)
        else if item = ''opportunistic_audio'' then Some (s, True)
        else if take (length ''codec='') item = ''codec='' then
          (let c = get_codec_from_name env (drop (length ''codec='') item)
           in if c = 0 then None else Some (s\<lparr>convert_to := c\<rparr>, opp))
        else if take (length ''queue='') item = ''queue='' then
          Some (s\<lparr>max_queue_len := atoi (drop (length ''queue='') item)\<rparr>, opp)
        else if take (length ''threads='') item = ''threads='' then
          (case strtol (drop (length ''threads='') item) 0 of
             (count, endptr) \<Rightarrow>
               Some (s\<lparr>thread_count := clampi count 0 INT_MAX,
                        thread_type :=
                          (if CHR ''F'' \<in> set endptr then FF_THREAD_FRAME else 0) +
                          (if CHR ''S'' \<in> set endptr then FF_THREAD_SLICE else 0)\<rparr>,
                     opp))
        else None)"

fun parse_items ::
  "file_env \<Rightarrow> string list \<Rightarrow> vidcap_state_lavf_decoder \<times> bool \<Rightarrow>
   (vidcap_state_lavf_decoder \<times> bool) option" where
  "parse_items env [] sb = Some sb"
| "parse_items env (item # items) sb =
     (case parse_item env item sb of None \<Rightarrow> None | Some sb' \<Rightarrow> parse_items env items sb')"

definition vidcap_file_parse_fmt ::
  "file_env \<Rightarrow> vidcap_state_lavf_decoder \<Rightarrow> string \<Rightarrow>
   (vidcap_state_lavf_decoder \<times> bool) option" where
  "vidcap_file_parse_fmt env s fmt =
     parse_items env (tl (strtok_all fmt))
       (s\<lparr>src_filename :=
            takeWhile (\<lambda>c. c = CHR '':'') fmt @
            takeWhile (\<lambda>c. c \<noteq> CHR '':'') (dropWhile (\<lambda>c. c = CHR '':'') fmt)\<rparr>,
        False)"

text \<open>The state as \<open>calloc\<close> gives it; no worker thread runs yet.\<close>

definition calloc_state :: vidcap_state_lavf_decoder where
  "calloc_state =
     \<lparr>priv_magic = 0, msg_queue = [], src_filename = [], streams = [], fmt_start_time = 0,
      thread_count = 0, thread_type = 0,
      failed = False, loop = False, new_msg = False, no_decode = False, convert_to = 0,
      paused = False, use_audio = False, video_stream_idx = 0, audio_stream_idx = 0,
      last_vid_pts = 0,
      video_desc = \<lparr>width = 0, height = 0, fps = 0, color_spec = 0, tile_count = 0\<rparr>,
      video_frame_queue = [], max_queue_len = 0,
      audio_frame = \<lparr>bps = 0, sample_rate = 0, ch_count = 0, data = [], data_len = 0, max_size = 0\<rparr>,
      should_exit = False, responses = [], seek_calls = [], signalled = [],
      exit_uv_called = False, undefined_behaviour = False, worker = Exited\<rparr>"

text \<open>
  Modelled from the spec: the result codes of video_capture.h are not among the
  sources. By the spec an open has three results: OK (state produced), FAIL and NOERR
  (nothing to do, for example help text shown). A fourth value marks an array read out
  of range.
\<close>

datatype init_result =
    VIDCAP_INIT_FAIL
  | VIDCAP_INIT_NOERR
  | VIDCAP_INIT_OK vidcap_state_lavf_decoder
  | InitOutOfBoundsRead

text \<open>The audio part of \<open>vidcap_file_init\<close>; \<open>None\<close> is the return of \<open>VIDCAP_INIT_FAIL\<close>.\<close>

definition init_audio ::
  "file_env \<Rightarrow> 32 word \<Rightarrow> bool \<Rightarrow> vidcap_state_lavf_decoder \<Rightarrow> vidcap_state_lavf_decoder option" where
  "init_audio env flags opportunistic_audio s =
     (if and flags (VIDCAP_FLAG_AUDIO_ANY env) \<noteq> 0 then
        (let s1 = s\<lparr>audio_stream_idx := best_audio_stream env\<rparr>
         in if audio_stream_idx s1 < 0 \<and> \<not> opportunistic_audio then None
            else if 0 \<le> audio_stream_idx s1 then
              (case audio_dec env of
                 None \<Rightarrow> None
               | Some (b, r, c) \<Rightarrow>
                   Some (s1\<lparr>audio_frame :=
                              \<lparr>bps = b, sample_rate = r, ch_count = c, data = [], data_len = 0,
                               max_size = b * c * r\<rparr>,
                            use_audio := True\<rparr>))
            else Some s1)
      else Some s)"

text \<open>The video part; \<open>None\<close> is the return of \<open>VIDCAP_INIT_FAIL\<close>.\<close>

definition init_video ::
  "file_env \<Rightarrow> vidcap_state_lavf_decoder \<Rightarrow> vidcap_state_lavf_decoder option" where
  "init_video env s =
     (let s1 = s\<lparr>video_stream_idx := best_video_stream env\<rparr>
      in if video_stream_idx s1 < 0 then None
         else
           (let d = \<lparr>width = stream_width env, height = stream_height env, fps = stream_fps env,
                     color_spec = 0, tile_count = 1\<rparr>
            in if no_decode s1 then
                 (if nodecode_codec env = 0 then None
                  else Some (s1\<lparr>video_desc := d\<lparr>color_spec := nodecode_codec env\<rparr>\<rparr>))
               else if \<not> video_dec_ok env then None
               else
                 (let c0 = (if convert_to s1 \<noteq> 0 then convert_to s1 else best_ug_codec env);
                      c = (if c0 = 0 then UYVY env else c0)
                  in if \<not> conversion_ok env c then None
                     else Some (s1\<lparr>video_desc := d\<lparr>color_spec := c\<rparr>\<rparr>))))"

definition vidcap_file_init :: "file_env \<Rightarrow> string \<Rightarrow> 32 word \<Rightarrow> init_result" where
  "vidcap_file_init env fmt flags =
     (if fmt = [] \<or> fmt = ''help'' \<or> fmt = ''fullhelp'' then
        (if fmt = [] then VIDCAP_INIT_FAIL else VIDCAP_INIT_NOERR)
      else
        (let s0 = calloc_state\<lparr>audio_stream_idx := - 1, video_stream_idx := - 1,
                                max_queue_len := FILE_DEFAULT_QUEUE_LEN,
                                thread_count := 0,
                                thread_type := FF_THREAD_FRAME + FF_THREAD_SLICE,
                                priv_magic := MAGIC\<rparr>
         in case vidcap_file_parse_fmt env s0 fmt of
              None \<Rightarrow> VIDCAP_INIT_FAIL
            | Some (s1, opportunistic_audio) \<Rightarrow>
                if open_input_rc env < 0 \<or> find_stream_info_rc env < 0 then VIDCAP_INIT_FAIL
                else
                  (case init_audio env flags opportunistic_audio
                          (s1\<lparr>streams := env_streams env, fmt_start_time := env_start_time env\<rparr>) of
                     None \<Rightarrow> VIDCAP_INIT_FAIL
                   | Some s2 \<Rightarrow>
                       (case init_video env s2 of
                          None \<Rightarrow> VIDCAP_INIT_FAIL
                        | Some s3 \<Rightarrow>
                            (case video_st s3 of
                               None \<Rightarrow> InitOutOfBoundsRead
                             | Some st \<Rightarrow>
                                 VIDCAP_INIT_OK
                                   (s3\<lparr>last_vid_pts := start_time st, worker := LoopHead\<rparr>))))))"

text \<open>
  The answers of the libraries for the file behind \<open>demo_state\<close>, and the three-step
  pass of the worker that reads, decodes and queues one picture of it.
\<close>

definition demo_env :: file_env where
  "demo_env =
     \<lparr>get_codec_from_name = (\<lambda>n. if n = ''UYVY'' then 1 else 0), UYVY = 1,
      VIDCAP_FLAG_AUDIO_ANY = 14,
      open_input_rc = 0, find_stream_info_rc = 0,
      env_streams = [\<lparr>start_time = 3000, time_base_num = 1, time_base_den = 90000, duration = 900000\<rparr>],
      env_start_time = 0, best_audio_stream = - 1, audio_dec = None,
      best_video_stream = 0, stream_width = 1920, stream_height = 1080, stream_fps = 25,
      nodecode_codec = 0, video_dec_ok = True, best_ug_codec = 1,
      conversion_ok = (\<lambda>_. True)\<rparr>"

definition video_env :: worker_env where
  "video_env =
     \<lparr>read_frame = Packet \<lparr>stream_index = 0, pts = 6600, dts = 6600, pkt_data = [1, 2]\<rparr>,
      seek_rc = 0, decoded_video = Some [7, 7, 7, 7], decoded_audio = []\<rparr>"

definition demo_frame :: video_frame where
  "demo_frame =
     \<lparr>vf_desc = \<lparr>width = 1920, height = 1080, fps = 25, color_spec = 1, tile_count = 1\<rparr>,
      vf_data = [7, 7, 7, 7]\<rparr>"


definition eof_env :: worker_env where
  "eof_env = video_env\<lparr>read_frame := AVERROR_EOF\<rparr>"

section \<open>Properties of the registry and dispatch\<close>

subsection \<open>The wrapper heap\<close>

lemma fold_max_ge: "m \<le> fold max xs (m::nat)"
  by (induction xs arbitrary: m) (auto intro: order_trans[OF max.cobounded2])

lemma fold_max_mem: "x \<in> set xs \<Longrightarrow> x \<le> fold max xs (m::nat)"
proof (induction xs arbitrary: m)
  case Nil
  then show ?case by simp
next
  case (Cons y ys)
  show ?case
  proof (cases "x = y")
    case True
    have "max y m \<le> fold max ys (max y m)" by (rule fold_max_ge)
    with True show ?thesis by simp
  next
    case False
    with Cons show ?thesis by simp
  qed
qed

lemma malloc_addr_fresh: "(b, d) \<in> set h \<Longrightarrow> b < malloc_addr h"
  unfolding malloc_addr_def using fold_max_mem[of b "map fst h" 0]
  by (force simp: less_Suc_eq_le)

lemma malloc_addr_unallocated: "map_of h (malloc_addr h) = None"
  using malloc_addr_fresh[of "malloc_addr h" _ h]
  by (auto simp: map_of_eq_None_iff)

lemma free_malloc: "free_block (malloc_addr h) ((malloc_addr h, d) # h) = h"
proof -
  have "filter (\<lambda>(b, _). b \<noteq> malloc_addr h) h = h"
    by (rule filter_True) (auto dest: malloc_addr_fresh)
  then show ?thesis by (simp add: free_block_def)
qed

subsection \<open>\<open>vidcap_init\<close>\<close>

text \<open>
  The loop of \<open>vidcap_init\<close> stops at the first row whose id matches; what it returns
  is decided by that row's \<open>func_init\<close> alone, and the wrapper allocated for a row whose
  \<open>init\<close> gave no state is freed again.
\<close>

lemma vidcap_init_from_find:
  "vidcap_init_from i tbl ident fmt flags slot h =
     (case find (\<lambda>e. api_id e = ident) (drop i tbl) of
        None \<Rightarrow> (- 1, slot, h)
      | Some e \<Rightarrow>
          (case func_init e fmt flags of
             NULL \<Rightarrow> (- 1, slot, h)
           | INIT_NOERR \<Rightarrow> (1, slot, h)
           | State st \<Rightarrow>
               (0, Some (malloc_addr h),
                (malloc_addr h,
                 \<lparr>state = State st,
                  index = i + length (takeWhile (\<lambda>e. api_id e \<noteq> ident) (drop i tbl)),
                  magic = VIDCAP_MAGIC\<rparr>) # h)))"
proof (induction i tbl ident fmt flags slot h rule: vidcap_init_from.induct)
  case (1 i tbl ident fmt flags slot h)
  show ?case
  proof (cases "i < length tbl")
    case False
    then show ?thesis by (subst vidcap_init_from.simps) simp
  next
    case True
    then have d: "drop i tbl = tbl ! i # drop (Suc i) tbl"
      by (simp add: Cons_nth_drop_Suc)
    show ?thesis
    proof (cases "api_id (tbl ! i) = ident")
      case False
      have "vidcap_init_from i tbl ident fmt flags slot h =
            vidcap_init_from (Suc i) tbl ident fmt flags slot h"
        using True False by (subst vidcap_init_from.simps) simp
      also note 1[OF True False]
      finally show ?thesis using d False
        by (simp split: option.splits state_ptr.splits)
    next
      case t: True
      with True d show ?thesis
        by (subst vidcap_init_from.simps)
           (simp add: Let_def free_malloc split: state_ptr.splits option.splits)
    qed
  qed
qed

text \<open>
  Claim C3. \<open>vidcap_init\<close> has three outcomes, decided by the first table row with the
  requested id: it returns 0 exactly when that row's init produced a real state, and
  then the caller's slot holds a fresh handle carrying that state and the magic tag; it
  returns 1 exactly when init returned the address of \<open>vidcap_init_noerr\<close>; it returns
  -1 exactly when init returned NULL; in the last two cases, and when no row has the id
  (where the result is -1 as well), the slot keeps its old content.
\<close>

theorem vidcap_init_three_outcomes:
  "\<exists>ret slot' h'.
     vidcap_init tbl ident fmt flags slot h = (ret, slot', h') \<and>
     (case find (\<lambda>e. api_id e = ident) tbl of
        None \<Rightarrow> ret = - 1 \<and> slot' = slot
      | Some e \<Rightarrow>
          (ret = 0 \<longleftrightarrow> (\<exists>st. func_init e fmt flags = State st)) \<and>
          (ret = 1 \<longleftrightarrow> func_init e fmt flags = INIT_NOERR) \<and>
          (ret = - 1 \<longleftrightarrow> func_init e fmt flags = NULL) \<and>
          (ret \<noteq> 0 \<longrightarrow> slot' = slot) \<and>
          (ret = 0 \<longrightarrow>
             (\<exists>a d. slot' = Some a \<and> map_of h a = None \<and> map_of h' a = Some d \<and>
                    state d = func_init e fmt flags \<and> magic d = VIDCAP_MAGIC)))"
  unfolding vidcap_init_def vidcap_init_from_find
  by (simp add: malloc_addr_unallocated split: option.splits state_ptr.splits)

theorem vidcap_init_three_outcomes_witness:
  "vidcap_init demo_table 3 ''cfg'' 0 None [] =
     (0, Some 1, [(1, \<lparr>state = State 7, index = 2, magic = VIDCAP_MAGIC\<rparr>)]) \<and>
   vidcap_init demo_table 2 ''help'' 0 None [] = (1, None, []) \<and>
   vidcap_init demo_table 1 ''cfg'' 0 None [] = (- 1, None, []) \<and>
   vidcap_init demo_table 9 ''cfg'' 0 (Some 5) [] = (- 1, Some 5, [])"
  using vidcap_init_three_outcomes [of demo_table 3 "''cfg''" 0 None "[]"]
        vidcap_init_three_outcomes [of demo_table 2 "''help''" 0 None "[]"]
        vidcap_init_three_outcomes [of demo_table 1 "''cfg''" 0 None "[]"]
        vidcap_init_three_outcomes [of demo_table 9 "''cfg''" 0 "Some 5" "[]"]
  by (simp add: vidcap_init_def demo_table_def malloc_addr_def free_block_def)

text \<open>
  Claim C10. \<open>vidcap_init\<close> writes the caller's slot only when it returns 0. On every
  other return (no row with the id, init returning NULL, init returning the no-error
  sentinel) the slot and the heap are what they were before the call, so the wrapper
  allocated on the way has been freed; on return 0 the heap has grown by exactly the
  wrapper the slot now points to.
\<close>

theorem vidcap_init_slot_written_only_on_ok:
  "vidcap_init tbl ident fmt flags slot h = (ret, slot', h') \<Longrightarrow>
     (ret \<noteq> 0 \<longrightarrow> slot' = slot \<and> h' = h) \<and>
     (ret = 0 \<longrightarrow> slot' = Some (malloc_addr h) \<and> map_of h (malloc_addr h) = None \<and>
                 (\<exists>d. h' = (malloc_addr h, d) # h)) \<and>
     ((find (\<lambda>e. api_id e = ident) tbl = None \<or>
       (\<exists>e. find (\<lambda>e. api_id e = ident) tbl = Some e \<and>
            (func_init e fmt flags = NULL \<or> func_init e fmt flags = INIT_NOERR)))
      \<longrightarrow> ret \<noteq> 0)"
  unfolding vidcap_init_def vidcap_init_from_find
  by (auto simp: malloc_addr_unallocated split: option.splits state_ptr.splits)

theorem vidcap_init_slot_written_only_on_ok_witness:
  "vidcap_init demo_table 2 ''help'' 0 (Some 4)
       [(4, \<lparr>state = State 1, index = 2, magic = VIDCAP_MAGIC\<rparr>)]
     = (1, Some 4, [(4, \<lparr>state = State 1, index = 2, magic = VIDCAP_MAGIC\<rparr>)]) \<and>
   vidcap_init demo_table 3 ''cfg'' 0 (Some 4)
       [(4, \<lparr>state = State 1, index = 2, magic = VIDCAP_MAGIC\<rparr>)]
     = (0, Some 5, [(5, \<lparr>state = State 7, index = 2, magic = VIDCAP_MAGIC\<rparr>),
                    (4, \<lparr>state = State 1, index = 2, magic = VIDCAP_MAGIC\<rparr>)])"
  using vidcap_init_slot_written_only_on_ok
          [of demo_table 2 "''help''" 0 "Some 4"
              "[(4, \<lparr>state = State 1, index = 2, magic = VIDCAP_MAGIC\<rparr>)]" 1 "Some 4"
              "[(4, \<lparr>state = State 1, index = 2, magic = VIDCAP_MAGIC\<rparr>)]"]
  by (simp add: vidcap_init_def demo_table_def malloc_addr_def free_block_def)

subsection \<open>Misuse of the registry and of handles\<close>

text \<open>
  A probe pass adds one to \<open>available_device_count\<close> for every row whose probe
  returned a descriptor.
\<close>

lemma probe_from_count:
  "available_device_count (probe_from i r) =
     available_device_count r +
     int (length (filter (\<lambda>e. func_probe e \<noteq> None) (drop i (vidcap_device_table r))))"
proof (induction i r rule: probe_from.induct)
  case (1 i r)
  show ?case
  proof (cases "i < length (vidcap_device_table r)")
    case False
    then show ?thesis by (subst probe_from.simps) simp
  next
    case True
    then have d: "drop i (vidcap_device_table r) =
                  vidcap_device_table r ! i # drop (Suc i) (vidcap_device_table r)"
      by (simp add: Cons_nth_drop_Suc)
    show ?thesis
    proof (cases "func_probe (vidcap_device_table r ! i)")
      case None
      have "probe_from i r = probe_from (Suc i) r"
        using True None by (subst probe_from.simps) simp
      with 1(1)[OF True None] d None show ?thesis by simp
    next
      case (Some dt)
      let ?r = "r\<lparr>vidcap_device_table :=
                     (vidcap_device_table r)[i := (vidcap_device_table r ! i)\<lparr>api_id := type_id dt\<rparr>],
                  available_devices :=
                     (available_devices r)[nat (available_device_count r) := Some dt],
                  available_device_count := available_device_count r + 1\<rparr>"
      have "probe_from i r = probe_from (Suc i) ?r"
        using True Some by (subst probe_from.simps) simp
      with 1(2)[OF True Some] d Some show ?thesis by simp
    qed
  qed
qed

lemma probe_pass_registers:
  assumes "vidcap_init_devices (registry_init tbl) = Returns (n, r')"
    and "\<exists>e \<in> set tbl. func_probe e \<noteq> None"
  shows "available_device_count r' \<noteq> 0"
proof -
  from assms(1) have r': "r' = probe_from 0 (registry_init tbl)"
    by (simp add: vidcap_init_devices_def registry_init_def Let_def)
  from assms(2) have "filter (\<lambda>e. func_probe e \<noteq> None) tbl \<noteq> []"
    by (simp add: filter_empty_conv)
  then have "0 < length (filter (\<lambda>e. func_probe e \<noteq> None) tbl)" by simp
  then show ?thesis
    unfolding r' probe_from_count by (simp add: registry_init_def)
qed

text \<open>
  Claim C8, as the code has it. A second \<open>vidcap_init_devices\<close> with no
  \<open>vidcap_free_devices\<close> in between fails the assertion whenever the first pass
  registered a device (the assertion tests that the registry is empty, not that no pass
  has run); \<open>vidcap_get_device_details\<close> fails its first assertion for every index at
  or above the count; \<open>vidcap_done\<close> and \<open>vidcap_grab\<close> fail their assertion on a handle
  whose tag is not \<open>VIDCAP_MAGIC\<close>.
\<close>

theorem misuse_aborts:
  "(vidcap_init_devices (registry_init tbl) = Returns (n, r') \<and>
      (\<exists>e \<in> set tbl. func_probe e \<noteq> None)
      \<longrightarrow> vidcap_init_devices r' = AssertionFailed) \<and>
   (available_device_count r \<noteq> 0 \<longrightarrow> vidcap_init_devices r = AssertionFailed) \<and>
   (available_device_count r \<le> idx \<longrightarrow> vidcap_get_device_details r idx = AssertionFailed) \<and>
   (map_of h a = Some d \<and> magic d \<noteq> VIDCAP_MAGIC
      \<longrightarrow> vidcap_done tbl' h a = AssertionFailed \<and> vidcap_grab tbl' h a = AssertionFailed)"
  using probe_pass_registers[of tbl n r']
  by (auto simp: vidcap_init_devices_def vidcap_get_device_details_def
                 vidcap_done_def vidcap_grab_def)

theorem misuse_aborts_witness:
  "vidcap_init_devices (registry_init probe_table) =
     Returns (1, probe_from 0 (registry_init probe_table)) \<and>
   vidcap_init_devices (probe_from 0 (registry_init probe_table)) = AssertionFailed \<and>
   vidcap_get_device_details (probe_from 0 (registry_init probe_table)) 1 = AssertionFailed \<and>
   vidcap_done probe_table [(1, \<lparr>state = State 7, index = 1, magic = 0\<rparr>)] 1 = AssertionFailed \<and>
   vidcap_grab probe_table [(1, \<lparr>state = State 7, index = 1, magic = 0\<rparr>)] 1 = AssertionFailed"
  using misuse_aborts
          [of probe_table 1 "probe_from 0 (registry_init probe_table)"
              "probe_from 0 (registry_init probe_table)" 1
              "[(1, \<lparr>state = State 7, index = 1, magic = 0\<rparr>)]" 1
              "\<lparr>state = State 7, index = 1, magic = 0\<rparr>" probe_table]
  by (simp add: vidcap_init_devices_def registry_init_def probe_table_def VIDCAP_MAGIC_def
                Let_def)

text \<open>
  Claim C8 as stated fails for the double probe: when no probe of the first pass
  succeeds the count stays 0, and a second pass with no teardown in between returns
  normally.
\<close>

theorem double_probe_counterexample:
  "vidcap_init_devices (registry_init demo_table) = Returns (0, registry_init demo_table) \<and>
   (case vidcap_init_devices (registry_init demo_table) of
      Returns (n, r') \<Rightarrow> vidcap_init_devices r' = Returns (0, registry_init demo_table)
    | _ \<Rightarrow> False)"
  by (simp add: vidcap_init_devices_def registry_init_def demo_table_def Let_def)

text \<open>
  A negative index passes the first assertion of \<open>vidcap_get_device_details\<close> (only the
  upper bound is tested) and the array is then read in front of its first element.
\<close>

lemma vidcap_get_device_details_negative_index:
  "vidcap_get_device_details (probe_from 0 (registry_init probe_table)) (- 1) = OutOfBoundsRead"
  by (simp add: vidcap_get_device_details_def registry_init_def probe_table_def)

section \<open>Properties of the C arithmetic\<close>

text \<open>
  \<open>binary64_exponent\<close> scales every non-zero rational into the range of a 53-bit
  significand, so \<open>to_double\<close> rounds at the 53rd significant bit.
\<close>

lemma pow2_powi: "pow2 e = 2 powi e"
  by (simp add: pow2_def power_int_def power_one_over inverse_eq_divide)

lemma pow2_pos: "0 < pow2 e"
  by (simp add: pow2_powi)

lemma pow2_add: "pow2 (a + b) = pow2 a * pow2 b"
  by (simp add: pow2_powi power_int_add)

lemma bitlen_pow2_bounds:
  assumes "0 < (p :: int)"
  shows "pow2 (bitlen p - 1) \<le> of_int p" and "of_int p < pow2 (bitlen p)"
proof -
  from assms have b: "1 \<le> bitlen p" by (simp add: bitlen_alt_def)
  from bitlen_bounds[OF assms] have l: "2 ^ nat (bitlen p - 1) \<le> p" and u: "p < 2 ^ nat (bitlen p)"
    by simp_all
  from l have "(of_int (2 ^ nat (bitlen p - 1)) :: rat) \<le> of_int p" by (simp only: of_int_le_iff)
  with b show "pow2 (bitlen p - 1) \<le> of_int p" by (simp add: pow2_def)
  from u have "(of_int p :: rat) < of_int (2 ^ nat (bitlen p))" by (simp only: of_int_less_iff)
  with b show "of_int p < pow2 (bitlen p)" by (simp add: pow2_def)
qed

lemma binary64_exponent_range:
  assumes "x \<noteq> 0"
  shows "2 ^ 52 \<le> \<bar>x\<bar> / pow2 (binary64_exponent x) \<and> \<bar>x\<bar> / pow2 (binary64_exponent x) < 2 ^ 53"
proof -
  obtain p q where pq: "quotient_of \<bar>x\<bar> = (p, q)" by (cases "quotient_of \<bar>x\<bar>")
  then have q: "0 < q" by (rule quotient_of_denom_pos)
  from pq have x: "\<bar>x\<bar> = of_int p / of_int q" by (rule quotient_of_div)
  from assms have "0 < \<bar>x\<bar>" by simp
  with x q have p: "0 < p" by (simp add: zero_less_divide_iff)
  define e where "e = bitlen p - bitlen q - 53"
  have pl: "pow2 (bitlen p - 1) \<le> of_int p" and pu: "of_int p < pow2 (bitlen p)"
    using bitlen_pow2_bounds[OF p] by simp_all
  have ql: "pow2 (bitlen q - 1) \<le> of_int q" and qu: "of_int q < pow2 (bitlen q)"
    using bitlen_pow2_bounds[OF q] by simp_all
  have qpos: "(0 :: rat) < of_int q" using q by simp
  have lower: "pow2 (e + 52) < \<bar>x\<bar>"
  proof -
    have "pow2 (e + 52) * of_int q < pow2 (e + 52) * pow2 (bitlen q)"
      using qu pow2_pos by (simp add: mult_strict_left_mono)
    also have "\<dots> = pow2 (bitlen p - 1)"
      unfolding pow2_add [symmetric] e_def by simp
    also have "\<dots> \<le> of_int p" by (rule pl)
    finally show ?thesis unfolding x using qpos by (simp add: pos_less_divide_eq)
  qed
  have upper: "\<bar>x\<bar> < pow2 (e + 54)"
  proof -
    have "of_int p < pow2 (bitlen p)" by (rule pu)
    also have "\<dots> = pow2 (e + 54) * pow2 (bitlen q - 1)"
      unfolding pow2_add [symmetric] e_def by simp
    also have "\<dots> \<le> pow2 (e + 54) * of_int q"
      using ql pow2_pos[of "e + 54"] by (simp add: mult_left_mono)
    finally show ?thesis unfolding x using qpos by (simp add: pos_divide_less_eq)
  qed
  have p52: "pow2 52 = 2 ^ 52" and p53: "pow2 53 = 2 ^ 53" and p54: "pow2 54 = 2 ^ 54"
    and p1: "pow2 1 = 2"
    by (simp_all add: pow2_def)
  have l': "2 ^ 52 < \<bar>x\<bar> / pow2 e"
    using lower pow2_pos[of e] by (simp add: pow2_add p52 pos_less_divide_eq mult.commute)
  have u': "\<bar>x\<bar> / pow2 e < 2 ^ 54"
    using upper pow2_pos[of e] by (simp add: pow2_add p54 pos_divide_less_eq mult.commute)
  show ?thesis
  proof (cases "\<bar>x\<bar> / pow2 e < 2 ^ 53")
    case True
    then have "binary64_exponent x = e"
      by (simp add: binary64_exponent_def pq e_def Let_def)
    with True l' show ?thesis by simp
  next
    case False
    then have be: "binary64_exponent x = e + 1"
      by (simp add: binary64_exponent_def pq e_def Let_def)
    have d: "\<bar>x\<bar> / pow2 (e + 1) = (\<bar>x\<bar> / pow2 e) / 2"
      by (simp add: pow2_add p1)
    from False u' show ?thesis unfolding be d by simp
  qed
qed

text \<open>
  Integers below \<open>2^53\<close> in absolute value are \<open>double\<close>s, and sums, products and
  exact quotients of them that stay below \<open>2^53\<close> are computed without rounding.
\<close>

lemma round_half_even_of_int: "round_half_even (of_int m) = m"
  by (simp add: round_half_even_def)

lemma pow2_nonpos: "e \<le> 0 \<Longrightarrow> pow2 e = 1 / 2 ^ nat (- e)"
  by (cases "e = 0") (simp_all add: pow2_def)

lemma to_double_of_int_aux:
  assumes "e \<le> 0"
  shows "of_int (round_half_even (of_int k / pow2 e)) * pow2 e = (of_int k :: rat)"
proof -
  have "of_int k / pow2 e = (of_int (k * 2 ^ nat (- e)) :: rat)"
    using assms by (simp add: pow2_nonpos)
  then have "round_half_even (of_int k / pow2 e) = k * 2 ^ nat (- e)"
    by (simp only: round_half_even_of_int)
  then show ?thesis using assms by (simp add: pow2_nonpos)
qed

lemma binary64_exponent_of_int:
  assumes "k \<noteq> 0" "\<bar>k\<bar> < 2 ^ 53"
  shows "binary64_exponent (of_int k) \<le> 0"
proof -
  have q: "quotient_of \<bar>of_int k :: rat\<bar> = (\<bar>k\<bar>, 1)"
    using quotient_of_int[of "\<bar>k\<bar>"] by (simp add: Rat.of_int_def)
  have "bitlen \<bar>k\<bar> \<le> 53"
    using assms(2) by (simp add: bitlen_le_iff_power)
  moreover have "bitlen 1 = 1" by (simp add: bitlen_alt_def)
  ultimately show ?thesis
    unfolding binary64_exponent_def q by (simp add: Let_def)
qed

lemma to_double_of_int: "\<bar>k\<bar> < 2 ^ 53 \<Longrightarrow> to_double (of_int k) = of_int k"
proof (cases "k = 0")
  case True
  then show ?thesis by (simp add: to_double_def)
next
  case False
  assume "\<bar>k\<bar> < 2 ^ 53"
  with False have "binary64_exponent (of_int k) \<le> 0" by (rule binary64_exponent_of_int)
  then show ?thesis using False
    by (simp add: to_double_def Let_def to_double_of_int_aux)
qed

lemma double_of_int_exact: "\<bar>k\<bar> < 2 ^ 53 \<Longrightarrow> double_of_int k = of_int k"
  by (simp add: double_of_int_def to_double_of_int)

lemma trunc_zero_of_int: "trunc_zero (of_int k) = k"
  by (simp add: trunc_zero_def)

lemma ddiv_exact:
  assumes "b \<noteq> 0" "b dvd a" "\<bar>a div b\<bar> < 2 ^ 53"
  shows "ddiv (of_int a) (of_int b) = Some (of_int (a div b))"
proof -
  have "(of_int a :: rat) / of_int b = of_int (a div b)"
  proof -
    from assms(2) obtain c where c: "a = b * c" ..
    with assms(1) show ?thesis by simp
  qed
  then show ?thesis using assms by (simp add: ddiv_def to_double_of_int)
qed

lemma abs_div_le_dvd:
  assumes "b \<noteq> 0" "b dvd (a :: int)"
  shows "\<bar>a div b\<bar> \<le> \<bar>a\<bar>"
proof -
  from assms(2) obtain c where c: "a = b * c" ..
  have "1 \<le> \<bar>b\<bar>" using assms(1) by simp
  then have "1 * \<bar>c\<bar> \<le> \<bar>b\<bar> * \<bar>c\<bar>" by (rule mult_right_mono) simp
  with c assms(1) show ?thesis by (simp add: abs_mult)
qed

lemma ddiv_exact':
  assumes "b \<noteq> 0" "b dvd a" "\<bar>a\<bar> < 2 ^ 53"
  shows "ddiv (of_int a) (of_int b) = Some (of_int (a div b))"
  using ddiv_exact[OF assms(1,2)] abs_div_le_dvd[OF assms(1,2)] assms(3) by simp

lemma seek_sec_exact:
  assumes parse: "strtol (drop (length ''seek '') text) 0 = (n, endptr)"
      and form: "(case endptr of [] \<Rightarrow> False | c # _ \<Rightarrow> c = CHR ''s'') \<and> m = n \<or>
                 (case endptr of [] \<Rightarrow> True | c # _ \<Rightarrow> c \<noteq> CHR ''s'') \<and>
                 fps (video_desc s) = of_int f \<and> 0 < f \<and> f dvd n \<and> m = n div f"
      and n: "\<bar>n\<bar> < 2 ^ 53"
  shows "seek_sec s text = Some (of_int m)"
  using form
proof (elim disjE conjE)
  assume "case endptr of [] \<Rightarrow> False | c # _ \<Rightarrow> c = CHR ''s''" "m = n"
  then show ?thesis using parse n
    by (auto simp: seek_sec_def double_of_int_exact split: list.splits)
next
  assume a: "case endptr of [] \<Rightarrow> True | c # _ \<Rightarrow> c \<noteq> CHR ''s''"
    "fps (video_desc s) = of_int f" "0 < f" "f dvd n" "m = n div f"
  from a(3,4) n have "ddiv (of_int n) (of_int f) = Some (of_int (n div f))"
    by (intro ddiv_exact') auto
  then show ?thesis using parse n a
    by (auto simp: seek_sec_def double_of_int_exact split: list.splits)
qed

lemma seek_target_exact:
  assumes st: "video_st s = Some st"
      and sec: "seek_sec s text = Some (of_int m)"
      and tb: "time_base_num st \<noteq> 0" "time_base_num st dvd m * time_base_den st"
      and bounds: "\<bar>time_base_den st\<bar> < 2 ^ 53" "\<bar>time_base_num st\<bar> < 2 ^ 53"
                  "\<bar>m * time_base_den st\<bar> < 2 ^ 53"
                  "\<bar>start_time st + last_vid_pts s\<bar> < 2 ^ 53"
                  "\<bar>start_time st + last_vid_pts s + m * time_base_den st div time_base_num st\<bar> < 2 ^ 53"
  shows "seek_target s text =
           Some (start_time st + last_vid_pts s + m * time_base_den st div time_base_num st)"
proof -
  let ?den = "time_base_den st" and ?num = "time_base_num st"
  let ?base = "start_time st + last_vid_pts s"
  have mul: "dmul (of_int m) (double_of_int ?den) = of_int (m * ?den)"
    using bounds(1,3) to_double_of_int[of "m * ?den"]
    by (simp add: dmul_def double_of_int_exact)
  have dv: "ddiv (of_int (m * ?den)) (double_of_int ?num) = Some (of_int (m * ?den div ?num))"
    using ddiv_exact'[OF tb(1,2) bounds(3)] bounds(2) by (simp add: double_of_int_exact)
  have add: "dadd (double_of_int ?base) (of_int (m * ?den div ?num)) =
             of_int (?base + m * ?den div ?num)"
    using bounds(4,5) to_double_of_int[of "?base + m * ?den div ?num"]
    by (simp add: dadd_def double_of_int_exact)
  have r1: "in_int64 ?base"
    using bounds(4) by (simp add: in_int64_def INT64_MIN_def INT64_MAX_def abs_less_iff)
  have r2: "in_int64 (?base + m * ?den div ?num)"
    using bounds(5) by (simp add: in_int64_def INT64_MIN_def INT64_MAX_def abs_less_iff)
  show ?thesis
    unfolding seek_target_def st sec
    by (simp add: mul dv add r1 r2 double_to_int64_def trunc_zero_of_int del: of_int_mult of_int_add)
qed

text \<open>Rounding never turns a non-zero number into zero.\<close>

lemma round_half_even_cases:
  "round_half_even y = \<lfloor>y\<rfloor> \<or> round_half_even y = \<lfloor>y\<rfloor> + 1"
  by (simp add: round_half_even_def Let_def)

lemma round_half_even_nonzero:
  assumes "2 ^ 52 \<le> \<bar>y\<bar>"
  shows "round_half_even y \<noteq> 0"
proof (cases "0 \<le> y")
  case True
  with assms have "(of_int (2 ^ 52) :: rat) \<le> y" by simp
  then have "(2 ^ 52 :: int) \<le> \<lfloor>y\<rfloor>" by (simp only: le_floor_iff)
  then have "(1 :: int) \<le> \<lfloor>y\<rfloor>" by (rule order_trans[rotated]) simp
  with round_half_even_cases[of y] show ?thesis by linarith
next
  case False
  with assms have "y \<le> of_int (- (2 ^ 52))" by simp
  then have "\<lfloor>y\<rfloor> \<le> \<lfloor>of_int (- (2 ^ 52)) :: rat\<rfloor>" by (rule floor_mono)
  then have "\<lfloor>y\<rfloor> \<le> - (2 ^ 52 :: int)" by (simp only: floor_of_int)
  then have "\<lfloor>y\<rfloor> \<le> (- 2 :: int)" by (rule order_trans) simp
  with round_half_even_cases[of y] show ?thesis by linarith
qed

lemma to_double_eq_0_iff: "to_double x = 0 \<longleftrightarrow> x = 0"
proof
  assume z: "to_double x = 0"
  show "x = 0"
  proof (rule ccontr)
    assume nz: "x \<noteq> 0"
    let ?e = "binary64_exponent x"
    from binary64_exponent_range[OF nz] have "2 ^ 52 \<le> \<bar>x\<bar> / pow2 ?e" by simp
    then have "2 ^ 52 \<le> \<bar>x / pow2 ?e\<bar>" using pow2_pos[of ?e] by (simp add: abs_divide)
    then have "round_half_even (x / pow2 ?e) \<noteq> 0" by (rule round_half_even_nonzero)
    with nz z pow2_pos[of ?e] show False by (simp add: to_double_def Let_def)
  qed
next
  assume "x = 0"
  then show "to_double x = 0" by (simp add: to_double_def)
qed

lemma double_of_int_eq_0_iff: "double_of_int i = 0 \<longleftrightarrow> i = 0"
  by (simp add: double_of_int_def to_double_eq_0_iff)

text \<open>
  The time stamp of a seek, for every message: the value of the C expression in
  \<open>double\<close> arithmetic, truncated, when every step of it is defined.
\<close>

lemma seek_target_formula:
  assumes st: "video_st s = Some st"
      and parse: "strtol (drop (length ''seek '') text) 0 = (n, endptr)"
      and secs: "seconds = (case endptr of [] \<Rightarrow> False | c # _ \<Rightarrow> c = CHR ''s'')"
      and sec: "sec = (if seconds then to_double (of_int n)
                       else to_double (to_double (of_int n) / fps (video_desc s)))"
      and x: "x = to_double (to_double (of_int (start_time st + last_vid_pts s)) +
                    to_double (to_double (sec * to_double (of_int (time_base_den st))) /
                               to_double (of_int (time_base_num st))))"
  shows "seek_target s text =
           (if (seconds \<or> fps (video_desc s) \<noteq> 0) \<and> time_base_num st \<noteq> 0 \<and>
               in_int64 (start_time st + last_vid_pts s) \<and> in_int64 (trunc_zero x)
            then Some (trunc_zero x) else None)"
proof (cases seconds)
  case True
  then have e: "(case endptr of [] \<Rightarrow> True | c # _ \<Rightarrow> c \<noteq> CHR ''s'') = False"
    using secs by (simp split: list.splits)
  have ss: "seek_sec s text = Some sec"
    unfolding seek_sec_def parse using True sec by (simp add: e double_of_int_def)
  show ?thesis
    unfolding seek_target_def st ss
    using True x
    by (simp add: ddiv_def dmul_def dadd_def double_of_int_def double_to_int64_def
                  to_double_eq_0_iff)
next
  case False
  then have e: "(case endptr of [] \<Rightarrow> True | c # _ \<Rightarrow> c \<noteq> CHR ''s'') = True"
    using secs by (simp split: list.splits)
  show ?thesis
  proof (cases "fps (video_desc s) = 0")
    case True
    then have "seek_sec s text = None"
      unfolding seek_sec_def parse by (simp add: e ddiv_def)
    with True False show ?thesis by (simp add: seek_target_def st)
  next
    case nz: False
    have ss: "seek_sec s text = Some sec"
      unfolding seek_sec_def parse using False nz sec by (simp add: e ddiv_def double_of_int_def)
    show ?thesis
      unfolding seek_target_def st ss
      using False nz x
      by (simp add: ddiv_def dmul_def dadd_def double_of_int_def double_to_int64_def
                    to_double_eq_0_iff)
  qed
qed

section \<open>Properties of the control messages\<close>

lemma strtol_2s: "strtol (drop (length ''seek '') ''seek 2s'') 0 = (2, ''s'')"
  by (simp add: strtol_def isspace_def has_hex_prefix_def digit_value_def Let_def
                INT64_MIN_def INT64_MAX_def)

lemma strtol_50: "strtol (drop (length ''seek '') ''seek 50'') 0 = (50, [])"
  by (simp add: strtol_def isspace_def has_hex_prefix_def digit_value_def Let_def
                INT64_MIN_def INT64_MAX_def)

lemma strtol_402: "strtol (drop (length ''seek '') ''seek 402'') 0 = (402, [])"
  by (simp add: strtol_def isspace_def has_hex_prefix_def digit_value_def Let_def
                INT64_MIN_def INT64_MAX_def)

lemma strtol_0s: "strtol (drop (length ''seek '') ''seek 0s'') 0 = (0, ''s'')"
  by (simp add: strtol_def isspace_def has_hex_prefix_def digit_value_def Let_def
                INT64_MIN_def INT64_MAX_def)

lemma video_st_demo:
  "video_st (demo_state\<lparr>last_vid_pts := 450000\<rparr>) =
     Some \<lparr>start_time = 3000, time_base_num = 1, time_base_den = 90000, duration = 900000\<rparr>"
  by (simp add: video_st_def demo_state_def)

lemma seek_402_value:
  "trunc_zero
     (to_double (to_double (of_int (3000 + 450000)) +
        to_double (to_double (to_double (to_double (of_int 402) / 25) * to_double (of_int 90000)) /
                   to_double (of_int 1)))) = 1900199"
  by code_simp

lemma seek_target_402:
  "seek_target (demo_state\<lparr>last_vid_pts := 450000\<rparr>) ''seek 402'' = Some 1900199"
  using seek_target_formula [OF video_st_demo strtol_402 refl refl refl] seek_402_value
  by (simp add: demo_state_def in_int64_def INT64_MIN_def INT64_MAX_def)

lemma run3: "worker_run [video_env, video_env, video_env] demo_state =
   demo_state\<lparr>last_vid_pts := 6600, video_frame_queue := [demo_frame],
              signalled := [new_frame_ready]\<rparr>"
  by (simp add: vidcap_file_worker_step_def demo_state_def video_env_def demo_frame_def
       Let_def AV_NOPTS_VALUE_def INT64_MIN_def simple_linked_list_size_def
       simple_linked_list_append_def)

lemma audio_target_zero:
  "f \<noteq> 0 \<Longrightarrow>
   audio_target \<lparr>bps = 0, sample_rate = 0, ch_count = 0, data = [], data_len = 0, max_size = 0\<rparr> f
     = Some 0"
  by (simp add: audio_target_def ddiv_def dmul_def double_of_int_def to_double_def
                double_to_int_def trunc_zero_def in_int_def INT_MIN_def INT_MAX_def)

lemma grab_run3:
  "vidcap_file_grab (worker_run [video_env, video_env, video_env] demo_state) =
     GrabReturns (Some demo_frame)
       (Some \<lparr>bps = 0, sample_rate = 0, ch_count = 0, data = [], data_len = 0, max_size = 0\<rparr>)
       (demo_state\<lparr>last_vid_pts := 6600, signalled := [new_frame_ready, frame_consumed]\<rparr>)"
  unfolding run3
  by (simp add: vidcap_file_grab_def demo_state_def simple_linked_list_size_def
        simple_linked_list_pop_def get_audio_def audio_target_zero demo_frame_def Let_def)

text \<open>
  \<open>last_vid_pts\<close> is written by the worker when it has read a video packet, and not by
  \<open>vidcap_file_grab\<close>.
\<close>

lemma worker_reads_video_pts:
  assumes "worker s = ReadFrame" "read_frame env = Packet pkt"
      and "stream_index pkt = video_stream_idx s" "stream_index pkt \<noteq> audio_stream_idx s"
  shows "\<exists>s'. vidcap_file_worker_step env s = Some s' \<and>
              last_vid_pts s' = (if pts pkt = AV_NOPTS_VALUE then dts pkt else pts pkt)"
  using assms
  by (simp add: vidcap_file_worker_step_def Let_def split: option.splits)

lemma get_audio_last_vid_pts:
  "get_audio s f = Some (a, s') \<Longrightarrow> last_vid_pts s' = last_vid_pts s"
  by (auto simp: get_audio_def Let_def split: option.splits if_splits)

lemma grab_keeps_last_vid_pts:
  assumes "vidcap_file_grab s = GrabReturns v a s'"
  shows "last_vid_pts s' = last_vid_pts s"
  using assms
  by (auto simp: vidcap_file_grab_def simple_linked_list_pop_def
           split: if_splits list.splits option.splits dest!: get_audio_last_vid_pts)

text \<open>
  Claim C2, as the code has it. For every message containing \<open>seek \<close>, on a session
  with a video stream, the worker calls the demuxer with the value of the C expression
  \<open>st->start_time + s->last_vid_pts + sec * tb.den / tb.num\<close>: the \<open>int64_t\<close> sum,
  converted to \<open>double\<close>, plus the product and quotient in \<open>double\<close> arithmetic
  (each operation rounded), truncated to \<open>int64_t\<close>; \<open>sec\<close> is the number \<open>n\<close>
  read by \<open>strtol\<close> when it is followed by \<open>s\<close>, and the rounded quotient of
  \<open>n\<close> by the frame rate otherwise. The value is defined when the frame rate (in the
  frame form) and \<open>tb.num\<close> are not zero and the sum and the result fit
  \<open>int64_t\<close>. It is the exact \<open>start_time + last_vid_pts + m * tb.den / tb.num\<close>,
  with \<open>m\<close> the number of seconds, whenever the frame rate is an integer dividing
  \<open>n\<close>, \<open>tb.num\<close> divides \<open>m * tb.den\<close> and all quantities are below \<open>2^53\<close>; the
  example of the specification (25 fps, time base 1/90000, last pts 450000, messages
  \<open>seek 2s\<close> and \<open>seek 50\<close>, both giving \<open>start_time + 630000\<close>) is in the witness.
  \<open>last_vid_pts\<close> is the time stamp of the last video packet the worker has read; a
  returning \<open>grab\<close> does not change it.
\<close>

theorem seek_arithmetic:
  assumes "strstr text ''seek '' \<noteq> None"
      and "video_st s = Some st"
      and "strtol (drop (length ''seek '') text) 0 = (n, endptr)"
      and "seconds = (case endptr of [] \<Rightarrow> False | c # _ \<Rightarrow> c = CHR ''s'')"
      and "sec = (if seconds then to_double (of_int n)
                  else to_double (to_double (of_int n) / fps (video_desc s)))"
      and "x = to_double (to_double (of_int (start_time st + last_vid_pts s)) +
                    to_double (to_double (sec * to_double (of_int (time_base_den st))) /
                               to_double (of_int (time_base_num st))))"
  shows "seek_calls (process_message text s) =
           seek_calls s @
           [SeekFile (video_stream_idx s)
              (if (seconds \<or> fps (video_desc s) \<noteq> 0) \<and> time_base_num st \<noteq> 0 \<and>
                  in_int64 (start_time st + last_vid_pts s) \<and> in_int64 (trunc_zero x)
               then Some (trunc_zero x) else None)] \<and>
         ((seconds \<and> m = n \<or>
           \<not> seconds \<and> fps (video_desc s) = of_int f \<and> 0 < f \<and> f dvd n \<and> m = n div f) \<and>
          time_base_num st \<noteq> 0 \<and> time_base_num st dvd m * time_base_den st \<and>
          \<bar>n\<bar> < 2 ^ 53 \<and> \<bar>time_base_den st\<bar> < 2 ^ 53 \<and> \<bar>time_base_num st\<bar> < 2 ^ 53 \<and>
          \<bar>m * time_base_den st\<bar> < 2 ^ 53 \<and> \<bar>start_time st + last_vid_pts s\<bar> < 2 ^ 53 \<and>
          \<bar>start_time st + last_vid_pts s + m * time_base_den st div time_base_num st\<bar> < 2 ^ 53
          \<longrightarrow>
          seek_calls (process_message text s) =
            seek_calls s @
            [SeekFile (video_stream_idx s)
               (Some (start_time st + last_vid_pts s +
                      m * time_base_den st div time_base_num st))]) \<and>
         (\<forall>env pkt. worker s = ReadFrame \<and> read_frame env = Packet pkt \<and>
                    stream_index pkt = video_stream_idx s \<and>
                    stream_index pkt \<noteq> audio_stream_idx s \<longrightarrow>
            (\<exists>s'. vidcap_file_worker_step env s = Some s' \<and>
                  last_vid_pts s' = (if pts pkt = AV_NOPTS_VALUE then dts pkt else pts pkt))) \<and>
         (\<forall>v a s'. vidcap_file_grab s = GrabReturns v a s' \<longrightarrow> last_vid_pts s' = last_vid_pts s)"
proof (intro conjI impI allI)
  have t: "seek_target s text =
           (if (seconds \<or> fps (video_desc s) \<noteq> 0) \<and> time_base_num st \<noteq> 0 \<and>
               in_int64 (start_time st + last_vid_pts s) \<and> in_int64 (trunc_zero x)
            then Some (trunc_zero x) else None)"
    using assms(2-6) by (rule seek_target_formula)
  have "seek_calls (process_message text s) =
          seek_calls s @ [SeekFile (video_stream_idx s) (seek_target s text)]"
    using assms(1) by (simp add: process_message_def)
  then show "seek_calls (process_message text s) =
           seek_calls s @
           [SeekFile (video_stream_idx s)
              (if (seconds \<or> fps (video_desc s) \<noteq> 0) \<and> time_base_num st \<noteq> 0 \<and>
                  in_int64 (start_time st + last_vid_pts s) \<and> in_int64 (trunc_zero x)
               then Some (trunc_zero x) else None)]"
    by (simp only: t)
next
  assume a: "(seconds \<and> m = n \<or>
           \<not> seconds \<and> fps (video_desc s) = of_int f \<and> 0 < f \<and> f dvd n \<and> m = n div f) \<and>
          time_base_num st \<noteq> 0 \<and> time_base_num st dvd m * time_base_den st \<and>
          \<bar>n\<bar> < 2 ^ 53 \<and> \<bar>time_base_den st\<bar> < 2 ^ 53 \<and> \<bar>time_base_num st\<bar> < 2 ^ 53 \<and>
          \<bar>m * time_base_den st\<bar> < 2 ^ 53 \<and> \<bar>start_time st + last_vid_pts s\<bar> < 2 ^ 53 \<and>
          \<bar>start_time st + last_vid_pts s + m * time_base_den st div time_base_num st\<bar> < 2 ^ 53"
  then have form: "(case endptr of [] \<Rightarrow> False | c # _ \<Rightarrow> c = CHR ''s'') \<and> m = n \<or>
                 (case endptr of [] \<Rightarrow> True | c # _ \<Rightarrow> c \<noteq> CHR ''s'') \<and>
                 fps (video_desc s) = of_int f \<and> 0 < f \<and> f dvd n \<and> m = n div f"
    using assms(4) by (auto split: list.splits)
  from a have n: "\<bar>n\<bar> < 2 ^ 53" by simp
  have "seek_sec s text = Some (of_int m)"
    using assms(3) form n by (rule seek_sec_exact)
  with assms(2) have "seek_target s text =
      Some (start_time st + last_vid_pts s + m * time_base_den st div time_base_num st)"
    using a by (intro seek_target_exact) simp_all
  with assms(1) show "seek_calls (process_message text s) =
            seek_calls s @
            [SeekFile (video_stream_idx s)
               (Some (start_time st + last_vid_pts s +
                      m * time_base_den st div time_base_num st))]"
    by (simp add: process_message_def)
next
  fix env :: worker_env and pkt :: av_packet
  assume "worker s = ReadFrame \<and> read_frame env = Packet pkt \<and>
          stream_index pkt = video_stream_idx s \<and> stream_index pkt \<noteq> audio_stream_idx s"
  then show "\<exists>s'. vidcap_file_worker_step env s = Some s' \<and>
                  last_vid_pts s' = (if pts pkt = AV_NOPTS_VALUE then dts pkt else pts pkt)"
    by (intro worker_reads_video_pts) simp_all
next
  fix v a s'
  assume "vidcap_file_grab s = GrabReturns v a s'"
  then show "last_vid_pts s' = last_vid_pts s" by (rule grab_keeps_last_vid_pts)
qed

theorem seek_arithmetic_witness:
  "seek_calls (process_message ''seek 2s'' (demo_state\<lparr>last_vid_pts := 450000\<rparr>)) =
     [SeekFile 0 (Some (3000 + 630000))] \<and>
   seek_calls (process_message ''seek 50'' (demo_state\<lparr>last_vid_pts := 450000\<rparr>)) =
     [SeekFile 0 (Some (3000 + 630000))] \<and>
   seek_calls (process_message ''seek 402'' (demo_state\<lparr>last_vid_pts := 450000\<rparr>)) =
     [SeekFile 0 (Some 1900199)] \<and>
   map_option last_vid_pts
     (vidcap_file_worker_step video_env (demo_state\<lparr>worker := ReadFrame\<rparr>)) = Some 6600 \<and>
   (case vidcap_file_grab (worker_run [video_env, video_env, video_env] demo_state) of
      GrabReturns v a s' \<Rightarrow> v = Some demo_frame \<and> last_vid_pts s' = 6600
    | _ \<Rightarrow> False)"
proof -
  have k: "strstr ''seek 2s'' ''seek '' \<noteq> None" "strstr ''seek 50'' ''seek '' \<noteq> None"
    "strstr ''seek 402'' ''seek '' \<noteq> None"
    by simp_all
  have a: "seek_calls (process_message ''seek 2s'' (demo_state\<lparr>last_vid_pts := 450000\<rparr>)) =
             [SeekFile 0 (Some (3000 + 630000))]"
    using seek_arithmetic [OF k(1) video_st_demo strtol_2s refl refl refl, of 2 25,
                           THEN conjunct2, THEN conjunct1]
    by (simp add: demo_state_def)
  have b: "seek_calls (process_message ''seek 50'' (demo_state\<lparr>last_vid_pts := 450000\<rparr>)) =
             [SeekFile 0 (Some (3000 + 630000))]"
    using seek_arithmetic [OF k(2) video_st_demo strtol_50 refl refl refl, of 2 25,
                           THEN conjunct2, THEN conjunct1]
    by (simp add: demo_state_def)
  have c: "seek_calls (process_message ''seek 402'' (demo_state\<lparr>last_vid_pts := 450000\<rparr>)) =
             [SeekFile 0 (Some 1900199)]"
    using seek_arithmetic [OF k(3) video_st_demo strtol_402 refl refl refl, of 0 1,
                           THEN conjunct1] seek_402_value
    by (simp add: demo_state_def in_int64_def INT64_MIN_def INT64_MAX_def)
  have w: "video_st (demo_state\<lparr>worker := ReadFrame\<rparr>) =
             Some \<lparr>start_time = 3000, time_base_num = 1, time_base_den = 90000, duration = 900000\<rparr>"
    by (simp add: video_st_def demo_state_def)
  have "\<exists>s'. vidcap_file_worker_step video_env (demo_state\<lparr>worker := ReadFrame\<rparr>) = Some s' \<and>
             last_vid_pts s' = 6600"
    using seek_arithmetic [OF k(1) w, of 2 "''s''", OF _ refl refl refl, of 2 25,
                           THEN conjunct2, THEN conjunct2, THEN conjunct1,
                           THEN spec, THEN spec,
                           of video_env "\<lparr>stream_index = 0, pts = 6600, dts = 6600, pkt_data = [1, 2]\<rparr>"]
    by (simp add: strtol_def isspace_def has_hex_prefix_def digit_value_def Let_def
                  INT64_MIN_def INT64_MAX_def video_env_def demo_state_def AV_NOPTS_VALUE_def)
  then have d: "map_option last_vid_pts
     (vidcap_file_worker_step video_env (demo_state\<lparr>worker := ReadFrame\<rparr>)) = Some 6600"
    by auto
  have r: "video_st (worker_run [video_env, video_env, video_env] demo_state) =
             Some \<lparr>start_time = 3000, time_base_num = 1, time_base_den = 90000, duration = 900000\<rparr>"
    unfolding run3 by (simp add: video_st_def demo_state_def)
  have lp: "last_vid_pts (worker_run [video_env, video_env, video_env] demo_state) = 6600"
    unfolding run3 by simp
  have "\<forall>v a s'. vidcap_file_grab (worker_run [video_env, video_env, video_env] demo_state) =
               GrabReturns v a s' \<longrightarrow> last_vid_pts s' = 6600"
    using seek_arithmetic [OF k(1) r strtol_2s refl refl refl, of 2 25,
                           THEN conjunct2, THEN conjunct2, THEN conjunct2]
    by (simp only: lp)
  with grab_run3 have e: "case vidcap_file_grab (worker_run [video_env, video_env, video_env] demo_state) of
      GrabReturns v a s' \<Rightarrow> v = Some demo_frame \<and> last_vid_pts s' = 6600
    | _ \<Rightarrow> False"
    by (simp only: grab_result.case)
  from a b c d e show ?thesis by (intro conjI)
qed

text \<open>
  Claim C2 as stated fails. In the set-up of the specification's example the message
  \<open>seek 402\<close> makes the worker seek to 1900199, where the exact value of the formula
  is 1900200: \<open>402 / 25\<close> is not a \<open>double\<close>, and the rounded product falls just below
  the integer. And the pts added is that of the last packet read, not of a frame
  returned: after the worker has queued its first picture (pts 6600) and before any
  \<open>grab\<close> has returned, \<open>seek 0s\<close> seeks to \<open>start_time + 6600\<close>.
\<close>

theorem seek_rounding_counterexample:
  "seek_calls (process_message ''seek 402'' (demo_state\<lparr>last_vid_pts := 450000\<rparr>)) =
     [SeekFile 0 (Some 1900199)] \<and>
   (3000 + 450000 + (402 / 25) * 90000 / 1 :: rat) = 1900200 \<and>
   signalled (worker_run [video_env, video_env, video_env] demo_state) = [new_frame_ready] \<and>
   seek_calls (process_message ''seek 0s'' (worker_run [video_env, video_env, video_env] demo_state)) =
     [SeekFile 0 (Some (3000 + 6600 + 0))]"
proof -
  have a: "seek_calls (process_message ''seek 402'' (demo_state\<lparr>last_vid_pts := 450000\<rparr>)) =
             [SeekFile 0 (Some 1900199)]"
    by (simp add: process_message_def seek_target_402) (simp add: demo_state_def)
  have b: "(3000 + 450000 + (402 / 25) * 90000 / 1 :: rat) = 1900200" by simp
  have c: "signalled (worker_run [video_env, video_env, video_env] demo_state) = [new_frame_ready]"
    unfolding run3 by simp
  have r: "video_st (demo_state\<lparr>last_vid_pts := 6600, video_frame_queue := [demo_frame],
              signalled := [new_frame_ready]\<rparr>) =
             Some \<lparr>start_time = 3000, time_base_num = 1, time_base_den = 90000, duration = 900000\<rparr>"
    by (simp add: video_st_def demo_state_def)
  have "seek_sec (demo_state\<lparr>last_vid_pts := 6600, video_frame_queue := [demo_frame],
              signalled := [new_frame_ready]\<rparr>) ''seek 0s'' = Some (of_int 0)"
    using strtol_0s by (intro seek_sec_exact[where n = 0 and endptr = "''s''" and f = 1]) simp_all
  with r have t: "seek_target (demo_state\<lparr>last_vid_pts := 6600, video_frame_queue := [demo_frame],
              signalled := [new_frame_ready]\<rparr>) ''seek 0s'' = Some (3000 + 6600 + 0)"
    using seek_target_exact[OF r, of "''seek 0s''" 0] by (simp add: demo_state_def)
  have d: "seek_calls (process_message ''seek 0s''
              (worker_run [video_env, video_env, video_env] demo_state)) =
             [SeekFile 0 (Some (3000 + 6600 + 0))]"
    unfolding run3 using t by (simp add: process_message_def) (simp add: demo_state_def)
  from a b c d show ?thesis by (intro conjI)
qed

text \<open>
  When one of the two expressions for the log line has no value (a time base with
  denominator 0, or a stream without duration, whose \<open>duration\<close> is
  \<open>AV_NOPTS_VALUE\<close>) the handler leaves defined behaviour after the seek call, and no
  reply is recorded.
\<close>

lemma seek_log_undefined:
  assumes "strstr text ''seek '' \<noteq> None" "\<not> seek_log_defined s"
  shows "undefined_behaviour (process_message text s) \<and>
         responses (process_message text s) = responses s"
  using assms by (simp add: process_message_def)

lemma seek_log_undefined_examples:
  "\<not> seek_log_defined
       (demo_state\<lparr>streams := [\<lparr>start_time = 3000, time_base_num = 1, time_base_den = 0,
                                   duration = 900000\<rparr>]\<rparr>) \<and>
   \<not> seek_log_defined
       (demo_state\<lparr>streams := [\<lparr>start_time = 3000, time_base_num = 1, time_base_den = 90000,
                                   duration = AV_NOPTS_VALUE\<rparr>]\<rparr>) \<and>
   seek_log_defined demo_state"
  by (simp add: seek_log_defined_def video_st_def demo_state_def time_ms_def int64_mul_def
                int64_div_def in_int64_def AV_NOPTS_VALUE_def INT64_MIN_def INT64_MAX_def)




section \<open>Properties of the audio slicer\<close>

lemma audio_target_48000: "audio_target (audio_buf 48000 n) 25 = Some 8064"
  unfolding audio_buf_def by code_simp

lemma audio_target_44100: "audio_target (audio_buf 44100 n) 25 = Some 7408"
  unfolding audio_buf_def by code_simp

lemma audio_target_Some:
  assumes "audio_target af f = Some req"
  shows "f \<noteq> 0 \<and>
         req = trunc_zero (to_double (dmul AUDIO_RATIO (double_of_int (sample_rate af)) / f))
                 * bps af * ch_count af"
  using assms
  by (auto simp: audio_target_def ddiv_def double_to_int_def
           split: if_splits option.splits)

lemma get_audio_Some:
  assumes "get_audio s f = Some (a, s')"
  shows "\<exists>req. audio_target (audio_frame s) f = Some req \<and>
               data_len a = min req (data_len (audio_frame s)) \<and> 0 \<le> data_len a \<and>
               data a = take (nat (data_len a)) (data (audio_frame s)) \<and>
               data (audio_frame s') = drop (nat (data_len a)) (data (audio_frame s)) \<and>
               data_len (audio_frame s') = data_len (audio_frame s) - data_len a"
  using assms
  by (auto simp: get_audio_def Let_def split: option.splits if_splits)

lemma double_25_example:
  "trunc_zero (to_double (dmul AUDIO_RATIO (double_of_int 48000) / 25)) * 2 * 2 = 8064"
  by code_simp

text \<open>
  Claim C4, as the code has it. The byte count \<open>get_audio\<close> takes from the buffer is
  \<open>(int) (AUDIO_RATIO * sample_rate / fps) * bps * ch_count\<close>, with the quotient
  truncated (not rounded up), clamped to the bytes buffered; so it never exceeds the
  bytes buffered, and with 25 fps, 48000 Hz, 2 bytes per sample and 2 channels it is at
  most \<open>2016 * 2 * 2 = 8064\<close>. The frame returned holds that prefix of the buffer and
  the rest of the buffer is moved to its start.
\<close>

theorem audio_slice_request:
  "get_audio s video_fps = Some (a, s') \<Longrightarrow>
     data_len a =
       min (trunc_zero (to_double (dmul AUDIO_RATIO (double_of_int (sample_rate (audio_frame s)))
                                     / video_fps))
              * bps (audio_frame s) * ch_count (audio_frame s))
           (data_len (audio_frame s)) \<and>
     data_len a \<le> data_len (audio_frame s) \<and>
     data a = take (nat (data_len a)) (data (audio_frame s)) \<and>
     data (audio_frame s') = drop (nat (data_len a)) (data (audio_frame s)) \<and>
     (video_fps = 25 \<and> sample_rate (audio_frame s) = 48000 \<and> bps (audio_frame s) = 2 \<and>
      ch_count (audio_frame s) = 2 \<longrightarrow> data_len a \<le> 8064)"
proof -
  assume g: "get_audio s video_fps = Some (a, s')"
  from get_audio_Some[OF g] obtain req where
    req: "audio_target (audio_frame s) video_fps = Some req"
    and len: "data_len a = min req (data_len (audio_frame s))"
    and rest: "data a = take (nat (data_len a)) (data (audio_frame s))"
              "data (audio_frame s') = drop (nat (data_len a)) (data (audio_frame s))"
    by blast
  from audio_target_Some[OF req] have
    f: "req = trunc_zero (to_double (dmul AUDIO_RATIO (double_of_int (sample_rate (audio_frame s)))
                                       / video_fps))
                * bps (audio_frame s) * ch_count (audio_frame s)" by simp
  have ex: "video_fps = 25 \<and> sample_rate (audio_frame s) = 48000 \<and> bps (audio_frame s) = 2 \<and>
        ch_count (audio_frame s) = 2 \<longrightarrow> data_len a \<le> 8064"
  proof
    assume "video_fps = 25 \<and> sample_rate (audio_frame s) = 48000 \<and> bps (audio_frame s) = 2 \<and>
        ch_count (audio_frame s) = 2"
    with f have "req = 8064" by (simp only: double_25_example)
    with len show "data_len a \<le> 8064" by simp
  qed
  from len f rest ex show ?thesis by simp
qed

lemma get_audio_example:
  "get_audio (audio_demo_state 48000 3000) 25 =
     Some (\<lparr>bps = 2, sample_rate = 48000, ch_count = 2, data = replicate 3000 0,
            data_len = 3000, max_size = 3000\<rparr>,
           (audio_demo_state 48000 3000)\<lparr>audio_frame :=
             \<lparr>bps = 2, sample_rate = 48000, ch_count = 2, data = [],
              data_len = 0, max_size = 192000\<rparr>\<rparr>)"
  using audio_target_48000[of 3000]
  by (simp add: get_audio_def audio_demo_state_def audio_buf_def Let_def)

theorem audio_slice_request_witness:
  "get_audio (audio_demo_state 48000 3000) 25 =
     Some (\<lparr>bps = 2, sample_rate = 48000, ch_count = 2, data = replicate 3000 0,
            data_len = 3000, max_size = 3000\<rparr>,
           (audio_demo_state 48000 3000)\<lparr>audio_frame :=
             \<lparr>bps = 2, sample_rate = 48000, ch_count = 2, data = [],
              data_len = 0, max_size = 192000\<rparr>\<rparr>) \<and>
   (3000 :: int) \<le> 8064"
  using audio_slice_request [OF get_audio_example] get_audio_example by simp

text \<open>
  Claim C4 as stated fails: with 10000 bytes buffered the example of the specification
  takes 8064 bytes, more than 4036; and at 44100 Hz the code takes \<open>1852 * 4\<close> bytes
  where rounding up would give \<open>1853 * 4\<close>.
\<close>

theorem audio_slice_counterexample:
  "(case get_audio (audio_demo_state 48000 10000) 25 of
      None \<Rightarrow> False
    | Some (a, _) \<Rightarrow> data_len a = 8064 \<and> 4036 < data_len a) \<and>
   (case get_audio (audio_demo_state 44100 10000) 25 of
      None \<Rightarrow> False
    | Some (a, _) \<Rightarrow>
        data_len a = 7408 \<and>
        data_len a < min (\<lceil>(105 / 100 :: rat) * 44100 * (1 / 25)\<rceil> * 2 * 2) 10000)"
proof -
  have "\<lceil>(105 / 100 :: rat) * 44100 * (1 / 25)\<rceil> = 1853" by code_simp
  then show ?thesis
    using audio_target_48000[of 10000] audio_target_44100[of 10000]
    by (simp add: get_audio_def audio_demo_state_def audio_buf_def Let_def)
qed

section \<open>Properties of the file backend\<close>

subsection \<open>Opening the example file\<close>

lemma strtok_demo: "strtok_all ''clip.mkv'' = [''clip.mkv'']"
  by simp

lemma init_demo: "vidcap_file_init demo_env ''clip.mkv'' 0 = VIDCAP_INIT_OK demo_state"
  by (simp add: vidcap_file_init_def vidcap_file_parse_fmt_def calloc_state_def demo_env_def
        init_audio_def init_video_def video_st_def demo_state_def Let_def
        FILE_DEFAULT_QUEUE_LEN_def FF_THREAD_FRAME_def FF_THREAD_SLICE_def)

lemma strtok_q: "strtok_all ''clip.mkv:loop:queue=3'' = [''clip.mkv'', ''loop'', ''queue=3'']"
  by simp

lemma strtol_3: "strtol ''3'' 10 = (3, [])"
  by (simp add: strtol_def isspace_def has_hex_prefix_def digit_value_def Let_def
                INT64_MIN_def INT64_MAX_def)

lemma init_queue3:
  "vidcap_file_init demo_env ''clip.mkv:loop:queue=3'' 0 =
     VIDCAP_INIT_OK (demo_state\<lparr>loop := True, max_queue_len := 3\<rparr>)"
  by (simp add: vidcap_file_init_def vidcap_file_parse_fmt_def calloc_state_def demo_env_def
        init_audio_def init_video_def video_st_def demo_state_def Let_def parse_item_def
        FILE_DEFAULT_QUEUE_LEN_def FF_THREAD_FRAME_def FF_THREAD_SLICE_def atoi_def strtol_3)

subsection \<open>What the transitions leave unchanged\<close>

text \<open>
  No transition clears \<open>failed\<close> or \<open>should_exit\<close> or changes the module magic or
  \<open>max_queue_len\<close>; the queue grows only by the worker's append and shrinks only by
  \<open>grab\<close>.
\<close>

lemma process_message_frame:
  "failed (process_message t s) = failed s"
  "should_exit (process_message t s) = should_exit s"
  "priv_magic (process_message t s) = priv_magic s"
  "max_queue_len (process_message t s) = max_queue_len s"
  "video_frame_queue (process_message t s) = video_frame_queue s"
  "audio_frame (process_message t s) = audio_frame s"
  "worker (process_message t s) = worker s"
  by (simp_all add: process_message_def)

lemma process_all_frame:
  "failed (process_all ts s) = failed s \<and>
   should_exit (process_all ts s) = should_exit s \<and>
   priv_magic (process_all ts s) = priv_magic s \<and>
   max_queue_len (process_all ts s) = max_queue_len s \<and>
   video_frame_queue (process_all ts s) = video_frame_queue s \<and>
   audio_frame (process_all ts s) = audio_frame s \<and>
   worker (process_all ts s) = worker s"
  by (induction ts arbitrary: s) (simp_all add: process_message_frame)

lemma write_audio_frame:
  "failed (vidcap_file_write_audio s b) = failed s \<and>
   should_exit (vidcap_file_write_audio s b) = should_exit s \<and>
   priv_magic (vidcap_file_write_audio s b) = priv_magic s \<and>
   max_queue_len (vidcap_file_write_audio s b) = max_queue_len s \<and>
   video_frame_queue (vidcap_file_write_audio s b) = video_frame_queue s"
  by (simp add: vidcap_file_write_audio_def split: decoded_audio_frame.splits)

lemma fold_write_audio_frame:
  "failed (fold (\<lambda>b s'. vidcap_file_write_audio s' b) bs s) = failed s \<and>
   should_exit (fold (\<lambda>b s'. vidcap_file_write_audio s' b) bs s) = should_exit s \<and>
   priv_magic (fold (\<lambda>b s'. vidcap_file_write_audio s' b) bs s) = priv_magic s \<and>
   max_queue_len (fold (\<lambda>b s'. vidcap_file_write_audio s' b) bs s) = max_queue_len s \<and>
   video_frame_queue (fold (\<lambda>b s'. vidcap_file_write_audio s' b) bs s) = video_frame_queue s"
  by (induction bs arbitrary: s) (simp_all add: write_audio_frame)

lemma worker_step_frame:
  assumes "vidcap_file_worker_step env s = Some s'"
  shows "(failed s \<longrightarrow> failed s') \<and> should_exit s' = should_exit s \<and>
         priv_magic s' = priv_magic s \<and> max_queue_len s' = max_queue_len s"
  using assms
  by (auto simp: vidcap_file_worker_step_def vidcap_file_process_messages_def process_all_frame
                 fold_write_audio_frame FAIL_WORKER_def Let_def
           split: worker_pc.splits if_splits av_read.splits option.splits)

lemma worker_step_queue:
  assumes "vidcap_file_worker_step env s = Some s'"
  shows "video_frame_queue s' = video_frame_queue s \<or>
         (\<exists>out. worker s = Enqueue out \<and> \<not> should_exit s \<and>
                int (length (video_frame_queue s)) \<le> max_queue_len s \<and>
                video_frame_queue s' = video_frame_queue s @ [out])"
  using assms
  by (auto simp: vidcap_file_worker_step_def vidcap_file_process_messages_def process_all_frame
                 fold_write_audio_frame FAIL_WORKER_def Let_def
                 simple_linked_list_size_def simple_linked_list_append_def
           split: worker_pc.splits if_splits av_read.splits option.splits)

lemma get_audio_frame:
  assumes "get_audio s f = Some (a, s')"
  shows "failed s' = failed s \<and> should_exit s' = should_exit s \<and>
         priv_magic s' = priv_magic s \<and> max_queue_len s' = max_queue_len s \<and>
         video_frame_queue s' = video_frame_queue s \<and> signalled s' = signalled s \<and>
         worker s' = worker s"
  using assms by (auto simp: get_audio_def Let_def split: option.splits if_splits)

lemma grab_frame:
  assumes "vidcap_file_grab s = GrabReturns v a s'"
  shows "failed s' = failed s \<and> should_exit s' = should_exit s \<and>
         priv_magic s' = priv_magic s \<and> max_queue_len s' = max_queue_len s \<and>
         length (video_frame_queue s') \<le> length (video_frame_queue s)"
  using assms
  by (auto simp: vidcap_file_grab_def simple_linked_list_pop_def
           split: if_splits list.splits option.splits dest!: get_audio_frame)

lemma reachable_frame:
  assumes "s \<in> reachable s0"
  shows "(failed s0 \<longrightarrow> failed s) \<and> (should_exit s0 \<longrightarrow> should_exit s) \<and>
         priv_magic s = priv_magic s0 \<and> max_queue_len s = max_queue_len s0"
  using assms
proof (induction rule: reachable.induct)
  case start
  then show ?case by simp
next
  case (worker_step s env s')
  then show ?case using worker_step_frame[of env s s'] by simp
next
  case (grab s v a s')
  then show ?case using grab_frame[of s v a s'] by simp
next
  case (message s m)
  then show ?case by (simp add: vidcap_file_new_message_def)
next
  case (exit s)
  then show ?case by (simp add: vidcap_file_should_exit_def)
qed

lemma reachable_queue_bound:
  assumes "s \<in> reachable s0"
      and "int (length (video_frame_queue s0)) \<le> max_queue_len s0 + 1"
  shows "int (length (video_frame_queue s)) \<le> max_queue_len s0 + 1"
  using assms
proof (induction rule: reachable.induct)
  case start
  then show ?case by simp
next
  case (worker_step s env s')
  from worker_step.hyps(1) have m: "max_queue_len s = max_queue_len s0"
    using reachable_frame by blast
  from worker_step_queue[OF worker_step.hyps(2)] worker_step.IH worker_step.prems m
  show ?case by auto
next
  case (grab s v a s')
  then show ?case using grab_frame[of s v a s'] by simp
next
  case (message s m)
  then show ?case by (simp add: vidcap_file_new_message_def)
next
  case (exit s)
  then show ?case by (simp add: vidcap_file_should_exit_def)
qed

lemma worker_run_reachable: "worker_run envs s \<in> reachable s"
proof (induction envs arbitrary: s)
  case Nil
  then show ?case by (simp add: reachable.start)
next
  case (Cons env envs)
  show ?case
  proof (cases "vidcap_file_worker_step env s")
    case None
    then show ?thesis by (simp add: reachable.start)
  next
    case (Some s')
    have "s' \<in> reachable s" using reachable.start Some by (rule reachable.worker_step)
    moreover have "worker_run envs s' \<in> reachable s'" by (rule Cons.IH)
    ultimately have "worker_run envs s' \<in> reachable s"
    proof -
      assume a: "s' \<in> reachable s" and b: "worker_run envs s' \<in> reachable s'"
      from b a show ?thesis
      proof (induction rule: reachable.induct)
        case start
        then show ?case .
      next
        case (worker_step t env t')
        then show ?case by (blast intro: reachable.worker_step)
      next
        case (grab t v a t')
        then show ?case by (blast intro: reachable.grab)
      next
        case (message t m)
        then show ?case by (blast intro: reachable.message)
      next
        case (exit t)
        then show ?case by (blast intro: reachable.exit)
      qed
    qed
    with Some show ?thesis by simp
  qed
qed

subsection \<open>The bound of the frame queue\<close>

lemma run6:
  "worker_run [video_env, video_env, video_env, video_env, video_env, video_env] demo_state =
   demo_state\<lparr>last_vid_pts := 6600, video_frame_queue := [demo_frame, demo_frame],
              signalled := [new_frame_ready, new_frame_ready]\<rparr>"
  by (simp add: vidcap_file_worker_step_def demo_state_def video_env_def demo_frame_def
       Let_def AV_NOPTS_VALUE_def INT64_MIN_def simple_linked_list_size_def
       simple_linked_list_append_def)

text \<open>
  At any bound: a worker holding a frame while the queue is exactly \<open>max_queue_len\<close>
  long does not wait, and its append makes the queue one longer than the bound.
\<close>

lemma enqueue_at_bound:
  assumes "worker s = Enqueue out" "\<not> should_exit s"
      and "simple_linked_list_size (video_frame_queue s) = max_queue_len s"
  shows "\<exists>s'. vidcap_file_worker_step env s = Some s' \<and>
              simple_linked_list_size (video_frame_queue s') = max_queue_len s + 1"
  using assms
  by (simp add: vidcap_file_worker_step_def simple_linked_list_append_def
                simple_linked_list_size_def)

text \<open>
  Claim C1 at the default bound. The file is opened with no \<open>queue=\<close> option, so
  \<open>max_queue_len\<close> is 1. The worker reads and decodes two pictures while the consumer
  does not call \<open>grab\<close>: before the second append the queue holds one frame, the test
  \<open>size > max_queue_len\<close> is false, the worker does not wait and appends, and the queue
  holds two frames. (By \<open>reachable_queue_bound\<close> the length the code does keep is
  \<open>max_queue_len + 1\<close>.)
\<close>

theorem queue_exceeds_max_queue_len:
  "vidcap_file_init demo_env ''clip.mkv'' 0 = VIDCAP_INIT_OK demo_state \<and>
   max_queue_len demo_state = 1 \<and>
   worker_run [video_env, video_env, video_env, video_env, video_env, video_env] demo_state
     \<in> reachable demo_state \<and>
   max_queue_len
     (worker_run [video_env, video_env, video_env, video_env, video_env, video_env] demo_state) = 1 \<and>
   simple_linked_list_size (video_frame_queue
     (worker_run [video_env, video_env, video_env, video_env, video_env, video_env] demo_state)) = 2"
proof -
  let ?s = "worker_run [video_env, video_env, video_env, video_env, video_env, video_env] demo_state"
  have r: "?s \<in> reachable demo_state" by (rule worker_run_reachable)
  have m: "max_queue_len demo_state = 1" by (simp add: demo_state_def)
  have q: "max_queue_len ?s = 1" unfolding run6 by (simp add: demo_state_def)
  have l: "simple_linked_list_size (video_frame_queue ?s) = 2"
    unfolding run6 by (simp add: simple_linked_list_size_def)
  from init_demo r m q l show ?thesis by (intro conjI)
qed

subsection \<open>\<open>vidcap_file_grab\<close>\<close>









subsection \<open>End of stream\<close>

text \<open>
  Claim C6. When \<open>av_read_frame\<close> reports the end of the file, a worker in loop mode
  seeks to the start time of the container and, the seek succeeding, goes on with its
  loop; a worker not in loop mode sets \<open>paused\<close> and goes to the head of its loop, where
  (no message pending, no exit requested) it waits on \<open>paused_cv\<close>. \<open>failed\<close> is not
  set: as long as exit is not requested \<open>grab\<close> never returns without a frame, and on
  the empty queue it waits.
\<close>

theorem end_of_stream:
  assumes "worker s = ReadFrame" and "read_frame env = AVERROR_EOF"
  shows "(loop s \<and> 0 \<le> seek_rc env \<longrightarrow>
            vidcap_file_worker_step env s =
              Some (s\<lparr>seek_calls := seek_calls s @ [SeekFile (- 1) (Some (fmt_start_time s))],
                      worker := LoopHead\<rparr>)) \<and>
         (\<not> loop s \<longrightarrow>
            vidcap_file_worker_step env s = Some (s\<lparr>paused := True, worker := LoopHead\<rparr>) \<and>
            (\<not> should_exit s \<and> \<not> new_msg s \<longrightarrow>
               vidcap_file_worker_step env' (s\<lparr>paused := True, worker := LoopHead\<rparr>) =
                 Some (s\<lparr>paused := True, worker := PausedWait\<rparr>) \<and>
               vidcap_file_worker_step env'' (s\<lparr>paused := True, worker := PausedWait\<rparr>) = None) \<and>
            (priv_magic s = MAGIC \<and> \<not> failed s \<and> \<not> should_exit s \<longrightarrow>
               (\<forall>a s'. vidcap_file_grab (s\<lparr>paused := True, worker := LoopHead\<rparr>)
                          \<noteq> GrabReturns None a s') \<and>
               (video_frame_queue s = [] \<longrightarrow>
                  vidcap_file_grab (s\<lparr>paused := True, worker := LoopHead\<rparr>) = GrabBlocks \<and>
                  vidcap_file_grab (s\<lparr>paused := True, worker := PausedWait\<rparr>) = GrabBlocks)))"
  using assms
  by (auto simp: vidcap_file_worker_step_def vidcap_file_grab_def Let_def
                 simple_linked_list_size_def simple_linked_list_pop_def
           split: list.splits option.splits)

theorem end_of_stream_witness:
  "vidcap_file_worker_step eof_env (demo_state\<lparr>loop := True, worker := ReadFrame\<rparr>) =
     Some (demo_state\<lparr>loop := True, seek_calls := [SeekFile (- 1) (Some 0)]\<rparr>) \<and>
   vidcap_file_worker_step eof_env (demo_state\<lparr>worker := ReadFrame\<rparr>) =
     Some (demo_state\<lparr>paused := True\<rparr>) \<and>
   vidcap_file_worker_step eof_env (demo_state\<lparr>paused := True\<rparr>) =
     Some (demo_state\<lparr>paused := True, worker := PausedWait\<rparr>) \<and>
   vidcap_file_worker_step eof_env (demo_state\<lparr>paused := True, worker := PausedWait\<rparr>) = None \<and>
   vidcap_file_grab (demo_state\<lparr>paused := True\<rparr>) = GrabBlocks \<and>
   vidcap_file_grab (demo_state\<lparr>paused := True, worker := PausedWait\<rparr>) = GrabBlocks"
proof -
  have r: "read_frame eof_env = AVERROR_EOF" "0 \<le> seek_rc eof_env"
    by (simp_all add: eof_env_def video_env_def)
  have a: "vidcap_file_worker_step eof_env (demo_state\<lparr>loop := True, worker := ReadFrame\<rparr>) =
             Some (demo_state\<lparr>loop := True, seek_calls := [SeekFile (- 1) (Some 0)]\<rparr>)"
    using end_of_stream [of "demo_state\<lparr>loop := True, worker := ReadFrame\<rparr>" eof_env] r
    by (simp add: demo_state_def)
  have b: "vidcap_file_worker_step eof_env (demo_state\<lparr>worker := ReadFrame\<rparr>) =
             Some (demo_state\<lparr>paused := True\<rparr>) \<and>
           vidcap_file_worker_step eof_env (demo_state\<lparr>paused := True\<rparr>) =
             Some (demo_state\<lparr>paused := True, worker := PausedWait\<rparr>) \<and>
           vidcap_file_worker_step eof_env (demo_state\<lparr>paused := True, worker := PausedWait\<rparr>) = None \<and>
           vidcap_file_grab (demo_state\<lparr>paused := True\<rparr>) = GrabBlocks \<and>
           vidcap_file_grab (demo_state\<lparr>paused := True, worker := PausedWait\<rparr>) = GrabBlocks"
    using end_of_stream [of "demo_state\<lparr>worker := ReadFrame\<rparr>" eof_env eof_env eof_env] r
    by (simp add: demo_state_def)
  from a b show ?thesis by simp
qed

subsection \<open>Audio on a session opened without audio\<close>

text \<open>
  \<open>vidcap_file_init\<close> called without any bit of \<open>VIDCAP_FLAG_AUDIO_ANY\<close> sets up no
  audio stream: \<open>use_audio\<close> stays false and \<open>audio_frame\<close> stays zeroed. But
  \<open>vidcap_file_grab\<close> does not read \<open>use_audio\<close>: whenever it returns a video frame
  it returns the frame \<open>get_audio\<close> allocated with it.
\<close>

lemma parse_item_audio:
  assumes "parse_item env item (s, opp) = Some (s', opp')"
  shows "use_audio s' = use_audio s \<and> audio_stream_idx s' = audio_stream_idx s \<and>
         audio_frame s' = audio_frame s"
  using assms
  by (auto simp: parse_item_def Let_def split: if_splits prod.splits)

lemma parse_items_audio:
  assumes "parse_items env items (s, opp) = Some (s', opp')"
  shows "use_audio s' = use_audio s \<and> audio_stream_idx s' = audio_stream_idx s \<and>
         audio_frame s' = audio_frame s"
  using assms
proof (induction items arbitrary: s opp)
  case Nil
  then show ?case by simp
next
  case (Cons item items)
  from Cons.prems obtain s1 opp1 where
    p: "parse_item env item (s, opp) = Some (s1, opp1)"
    and q: "parse_items env items (s1, opp1) = Some (s', opp')"
    by (auto split: option.splits)
  from Cons.IH[OF q] parse_item_audio[OF p] show ?case by simp
qed

lemma init_without_audio_flag:
  assumes "vidcap_file_init env fmt flags = VIDCAP_INIT_OK s"
      and "and flags (VIDCAP_FLAG_AUDIO_ANY env) = 0"
  shows "\<not> use_audio s \<and> audio_stream_idx s = - 1 \<and>
         audio_frame s =
           \<lparr>bps = 0, sample_rate = 0, ch_count = 0, data = [], data_len = 0, max_size = 0\<rparr>"
  using assms
  by (auto simp: vidcap_file_init_def vidcap_file_parse_fmt_def init_audio_def init_video_def
                 Let_def calloc_state_def
           split: if_splits option.splits prod.splits dest!: parse_items_audio)

lemma grab_video_has_audio:
  "vidcap_file_grab s = GrabReturns (Some f) a s' \<Longrightarrow> a \<noteq> None"
  by (auto simp: vidcap_file_grab_def simple_linked_list_pop_def
           split: if_splits list.splits option.splits)

text \<open>
  Claim C7 on the example file, opened with flags 0: after the worker has queued one
  picture, \<open>grab\<close> returns it together with an audio frame (of length 0, with 0
  channels), not with a null audio pointer.
\<close>

theorem grab_returns_audio_without_audio_flag:
  "vidcap_file_init demo_env ''clip.mkv'' 0 = VIDCAP_INIT_OK demo_state \<and>
   and (0 :: 32 word) (VIDCAP_FLAG_AUDIO_ANY demo_env) = 0 \<and>
   \<not> use_audio (worker_run [video_env, video_env, video_env] demo_state) \<and>
   vidcap_file_grab (worker_run [video_env, video_env, video_env] demo_state) =
     GrabReturns (Some demo_frame)
       (Some \<lparr>bps = 0, sample_rate = 0, ch_count = 0, data = [], data_len = 0, max_size = 0\<rparr>)
       (demo_state\<lparr>last_vid_pts := 6600, signalled := [new_frame_ready, frame_consumed]\<rparr>)"
proof -
  have m: "and (0 :: 32 word) (VIDCAP_FLAG_AUDIO_ANY demo_env) = 0" by simp
  have u: "\<not> use_audio (worker_run [video_env, video_env, video_env] demo_state)"
    unfolding run3 by (simp add: demo_state_def)
  from init_demo m u grab_run3 show ?thesis by (intro conjI)
qed

end
